theory Spec2Isabelle
  imports Main "HOL-Library.Multiset"
begin

section \<open>Go values used by the repository engine\<close>

text \<open>
  A Go \<^verbatim>\<open>error\<close> is modelled by its message (\<open>Err\<close>), a runtime panic by \<open>Panic\<close>.
  A \<^verbatim>\<open>time.Time\<close> is an instant on the integer line; the zero \<^verbatim>\<open>time.Time\<close> is \<open>0\<close>.
  A Go \<^verbatim>\<open>int\<close> is a 64-bit two's complement number: it is modelled as an \<open>int\<close> and
  every arithmetic operation of the source goes through \<open>wrap64\<close>.
\<close>

datatype failure = Err string | Panic string

type_synonym time = int

definition wrap64 :: "int \<Rightarrow> int" where
  "wrap64 x = (x + 2 ^ 63) mod 2 ^ 64 - 2 ^ 63"

definition int_add :: "int \<Rightarrow> int \<Rightarrow> int" where
  "int_add a b = wrap64 (a + b)"

definition int_sub :: "int \<Rightarrow> int \<Rightarrow> int" where
  "int_sub a b = wrap64 (a - b)"

definition int_mul :: "int \<Rightarrow> int \<Rightarrow> int" where
  "int_mul a b = wrap64 (a * b)"

text \<open>Go's \<^verbatim>\<open>/\<close> on ints truncates towards zero and panics on a zero divisor.\<close>

definition int_quo :: "int \<Rightarrow> int \<Rightarrow> failure + int" where
  "int_quo a b =
     (if b = 0 then Inl (Panic ''runtime error: integer divide by zero'')
      else Inr (wrap64 (sgn a * sgn b * (\<bar>a\<bar> div \<bar>b\<bar>))))"

text \<open>
  The slice expression \<^verbatim>\<open>xs[lo:hi]\<close>. Go panics unless \<open>0 \<le> lo \<le> hi \<le> cap xs\<close>; at every
  use in the source \<open>hi\<close> has been clamped to \<open>len xs\<close> before, so the bound \<open>len xs\<close> is
  the one that is written here.
\<close>

definition go_slice :: "'a list \<Rightarrow> int \<Rightarrow> int \<Rightarrow> failure + 'a list" where
  "go_slice xs lo hi =
     (if 0 \<le> lo \<and> lo \<le> hi \<and> hi \<le> int (length xs)
      then Inr (take (nat (hi - lo)) (drop (nat lo) xs))
      else Inl (Panic ''runtime error: slice bounds out of range''))"

text \<open>
  \<^verbatim>\<open>len(m)\<close> of a Go map, and the values a \<^verbatim>\<open>for _, v := range m\<close> loop visits. Go
  leaves the iteration order of a map unspecified, so every function that ranges over
  a map takes the order of that particular iteration as an argument \<open>ks\<close>; \<open>range_order\<close>
  says that \<open>ks\<close> is an order in which the runtime can visit the keys of \<open>m\<close>.
\<close>

definition len_map :: "('k \<rightharpoonup> 'v) \<Rightarrow> int" where
  "len_map m = int (card (dom m))"

definition range_order :: "('k \<rightharpoonup> 'v) \<Rightarrow> 'k list \<Rightarrow> bool" where
  "range_order m ks \<longleftrightarrow> distinct ks \<and> set ks = dom m"

definition range_values :: "('k \<rightharpoonup> 'v) \<Rightarrow> 'k list \<Rightarrow> 'v list" where
  "range_values m ks = List.map_filter m ks"

text \<open>The verb \<^verbatim>\<open>%d\<close> of \<^verbatim>\<open>fmt\<close>: an int in decimal.\<close>

function string_of_nat :: "nat \<Rightarrow> string" where
  "string_of_nat n =
     (if n < 10 then [''0123456789'' ! n]
      else string_of_nat (n div 10) @ [''0123456789'' ! (n mod 10)])"
  by pat_completeness auto
termination
  by (relation "measure (\<lambda>n. n)") auto

definition string_of_int :: "int \<Rightarrow> string" where
  "string_of_int i =
     (if i < 0 then CHR ''-'' # string_of_nat (nat (- i)) else string_of_nat (nat i))"

section \<open>The data model (internal/models)\<close>

record Repository =
  repo_Owner :: string
  repo_Name :: string
  repo_FullName :: string
  repo_Description :: string
  repo_URL :: string
  repo_HTMLURL :: string
  repo_IsPrivate :: bool
  repo_LastSyncedAt :: time
  repo_CreatedAt :: time
  repo_UpdatedAt :: time

record PullRequest =
  pr_RepositoryFullName :: string
  pr_Number :: int
  pr_Title :: string
  pr_Body :: string
  pr_State :: string
  pr_URL :: string
  pr_HTMLURL :: string
  pr_UserLogin :: string
  pr_UserAvatarURL :: string
  pr_UserURL :: string
  pr_UserHTMLURL :: string
  pr_CreatedAt :: time
  pr_UpdatedAt :: time
  pr_ClosedAt :: "time option"
  pr_MergedAt :: "time option"

record Issue =
  issue_RepositoryFullName :: string
  issue_Number :: int
  issue_Title :: string
  issue_Body :: string
  issue_State :: string
  issue_URL :: string
  issue_HTMLURL :: string
  issue_UserLogin :: string
  issue_UserAvatarURL :: string
  issue_UserURL :: string
  issue_UserHTMLURL :: string
  issue_CreatedAt :: time
  issue_UpdatedAt :: time
  issue_ClosedAt :: "time option"

record Label =
  label_Name :: string
  label_Color :: string
  label_Description :: string

section \<open>The in-memory store (memory.Cache)\<close>

text \<open>
  The six maps of the struct. A mutating method returns only an \<^verbatim>\<open>error\<close> in Go and
  changes the receiver in place; here it returns the error (if any) together with the
  store after the call. The mutex only makes each method atomic and is not modelled.
\<close>

record Cache =
  repositories :: "string \<rightharpoonup> Repository"
  pullRequests :: "string \<rightharpoonup> (int \<rightharpoonup> PullRequest)"
  issues :: "string \<rightharpoonup> (int \<rightharpoonup> Issue)"
  labels :: "string \<rightharpoonup> Label"
  prLabels :: "string \<rightharpoonup> (int \<rightharpoonup> string set)"
  issueLabels :: "string \<rightharpoonup> (int \<rightharpoonup> string set)"

definition NewCache :: Cache where
  "NewCache = \<lparr>repositories = Map.empty, pullRequests = Map.empty, issues = Map.empty,
     labels = Map.empty, prLabels = Map.empty, issueLabels = Map.empty\<rparr>"

text \<open>The block \<^verbatim>\<open>// Apply pagination\<close> that the listing methods share.\<close>

definition apply_pagination :: "'a list \<Rightarrow> int \<Rightarrow> int \<Rightarrow> int \<Rightarrow> failure + 'a list" where
  "apply_pagination xs total' page perPage =
     (let start = int_mul (int_sub page 1) perPage in
      if start \<ge> total' then Inr []
      else
        let end0 = int_add start perPage;
            end1 = (if end0 > total' then total' else end0)
        in go_slice xs start end1)"

subsection \<open>Repository operations\<close>

definition Cache_AddRepository :: "Cache \<Rightarrow> Repository \<Rightarrow> failure option \<times> Cache" where
  "Cache_AddRepository c repo =
     (let fullName = repo_Owner repo @ ''/'' @ repo_Name repo in
      if repositories c fullName \<noteq> None
      then (Some (Err (''repository '' @ fullName @ '' already exists'')), c)
      else
        let c1 = c\<lparr>repositories := (repositories c)(fullName \<mapsto> repo)\<rparr>;
            c2 = (if pullRequests c1 fullName = None
                  then c1\<lparr>pullRequests := (pullRequests c1)(fullName \<mapsto> Map.empty)\<rparr> else c1);
            c3 = (if issues c2 fullName = None
                  then c2\<lparr>issues := (issues c2)(fullName \<mapsto> Map.empty)\<rparr> else c2);
            c4 = (if prLabels c3 fullName = None
                  then c3\<lparr>prLabels := (prLabels c3)(fullName \<mapsto> Map.empty)\<rparr> else c3);
            c5 = (if issueLabels c4 fullName = None
                  then c4\<lparr>issueLabels := (issueLabels c4)(fullName \<mapsto> Map.empty)\<rparr> else c4)
        in (None, c5))"

definition Cache_GetRepository :: "Cache \<Rightarrow> string \<Rightarrow> string \<Rightarrow> failure + Repository" where
  "Cache_GetRepository c owner name =
     (let fullName = owner @ ''/'' @ name in
      case repositories c fullName of
        None \<Rightarrow> Inl (Err (''repository '' @ fullName @ '' not found''))
      | Some repo \<Rightarrow> Inr repo)"

definition Cache_UpdateRepository :: "Cache \<Rightarrow> Repository \<Rightarrow> failure option \<times> Cache" where
  "Cache_UpdateRepository c repo =
     (let fullName = repo_Owner repo @ ''/'' @ repo_Name repo in
      if repositories c fullName = None
      then (Some (Err (''repository '' @ fullName @ '' not found'')), c)
      else (None, c\<lparr>repositories := (repositories c)(fullName \<mapsto> repo)\<rparr>))"

definition Cache_DeleteRepository :: "Cache \<Rightarrow> string \<Rightarrow> string \<Rightarrow> failure option \<times> Cache" where
  "Cache_DeleteRepository c owner name =
     (let fullName = owner @ ''/'' @ name in
      if repositories c fullName = None
      then (Some (Err (''repository '' @ fullName @ '' not found'')), c)
      else (None, c\<lparr>repositories := (repositories c)(fullName := None),
                     pullRequests := (pullRequests c)(fullName := None),
                     issues := (issues c)(fullName := None),
                     prLabels := (prLabels c)(fullName := None),
                     issueLabels := (issueLabels c)(fullName := None)\<rparr>))"

text \<open>\<open>ks\<close> is the order in which this call's \<^verbatim>\<open>range c.repositories\<close> visits the keys.\<close>

definition Cache_ListRepositories ::
  "Cache \<Rightarrow> string list \<Rightarrow> int \<Rightarrow> int \<Rightarrow> failure + (Repository list \<times> int)" where
  "Cache_ListRepositories c ks page perPage =
     (let total' = len_map (repositories c) in
      if total' = 0 then Inr ([], 0)
      else
        let repos = range_values (repositories c) ks in
        case apply_pagination repos total' page perPage of
          Inl e \<Rightarrow> Inl e
        | Inr xs \<Rightarrow> Inr (xs, total'))"

subsection \<open>Pull request operations\<close>

definition Cache_AddPullRequest :: "Cache \<Rightarrow> PullRequest \<Rightarrow> failure option \<times> Cache" where
  "Cache_AddPullRequest c pr =
     (let rfn = pr_RepositoryFullName pr in
      if repositories c rfn = None
      then (Some (Err (''repository '' @ rfn @ '' not found'')), c)
      else
        let c1 = (if pullRequests c rfn = None
                  then c\<lparr>pullRequests := (pullRequests c)(rfn \<mapsto> Map.empty)\<rparr> else c);
            repoMap = (case pullRequests c1 rfn of Some m \<Rightarrow> m | None \<Rightarrow> Map.empty)
        in if repoMap (pr_Number pr) \<noteq> None
           then (Some (Err (''pull request '' @ rfn @ ''#'' @ string_of_int (pr_Number pr)
                             @ '' already exists'')), c1)
           else (None, c1\<lparr>pullRequests := (pullRequests c1)(rfn \<mapsto> repoMap(pr_Number pr \<mapsto> pr))\<rparr>))"

definition Cache_GetPullRequest :: "Cache \<Rightarrow> string \<Rightarrow> int \<Rightarrow> failure + PullRequest" where
  "Cache_GetPullRequest c repoFullName number =
     (if repositories c repoFullName = None
      then Inl (Err (''repository '' @ repoFullName @ '' not found''))
      else case pullRequests c repoFullName of
        None \<Rightarrow> Inl (Err (''no pull requests found for repository '' @ repoFullName))
      | Some repoMap \<Rightarrow>
          (case repoMap number of
             None \<Rightarrow> Inl (Err (''pull request '' @ repoFullName @ ''#'' @ string_of_int number
                                @ '' not found''))
           | Some pr \<Rightarrow> Inr pr))"

definition Cache_UpdatePullRequest :: "Cache \<Rightarrow> PullRequest \<Rightarrow> failure option \<times> Cache" where
  "Cache_UpdatePullRequest c pr =
     (let rfn = pr_RepositoryFullName pr in
      if repositories c rfn = None
      then (Some (Err (''repository '' @ rfn @ '' not found'')), c)
      else case pullRequests c rfn of
        None \<Rightarrow> (Some (Err (''no pull requests found for repository '' @ rfn)), c)
      | Some repoMap \<Rightarrow>
          if repoMap (pr_Number pr) = None
          then (Some (Err (''pull request '' @ rfn @ ''#'' @ string_of_int (pr_Number pr)
                            @ '' not found'')), c)
          else (None, c\<lparr>pullRequests := (pullRequests c)(rfn \<mapsto> repoMap(pr_Number pr \<mapsto> pr))\<rparr>))"

text \<open>\<open>ks\<close> is the order in which this call's \<^verbatim>\<open>range repoMap\<close> visits the numbers.\<close>

definition Cache_ListPullRequests ::
  "Cache \<Rightarrow> string \<Rightarrow> int list \<Rightarrow> int \<Rightarrow> int \<Rightarrow> failure + (PullRequest list \<times> int)" where
  "Cache_ListPullRequests c repoFullName ks page perPage =
     (if repositories c repoFullName = None
      then Inl (Err (''repository '' @ repoFullName @ '' not found''))
      else case pullRequests c repoFullName of
        None \<Rightarrow> Inr ([], 0)
      | Some repoMap \<Rightarrow>
          let total' = len_map repoMap;
              prs = range_values repoMap ks
          in (case apply_pagination prs total' page perPage of
                Inl e \<Rightarrow> Inl e
              | Inr xs \<Rightarrow> Inr (xs, total')))"

subsection \<open>Issue operations\<close>

definition Cache_AddIssue :: "Cache \<Rightarrow> Issue \<Rightarrow> failure option \<times> Cache" where
  "Cache_AddIssue c issue =
     (let rfn = issue_RepositoryFullName issue in
      if repositories c rfn = None
      then (Some (Err (''repository '' @ rfn @ '' not found'')), c)
      else
        let c1 = (if issues c rfn = None
                  then c\<lparr>issues := (issues c)(rfn \<mapsto> Map.empty)\<rparr> else c);
            repoMap = (case issues c1 rfn of Some m \<Rightarrow> m | None \<Rightarrow> Map.empty)
        in if repoMap (issue_Number issue) \<noteq> None
           then (Some (Err (''issue '' @ rfn @ ''#'' @ string_of_int (issue_Number issue)
                             @ '' already exists'')), c1)
           else (None, c1\<lparr>issues := (issues c1)(rfn \<mapsto> repoMap(issue_Number issue \<mapsto> issue))\<rparr>))"

definition Cache_GetIssue :: "Cache \<Rightarrow> string \<Rightarrow> int \<Rightarrow> failure + Issue" where
  "Cache_GetIssue c repoFullName number =
     (if repositories c repoFullName = None
      then Inl (Err (''repository '' @ repoFullName @ '' not found''))
      else case issues c repoFullName of
        None \<Rightarrow> Inl (Err (''no issues found for repository '' @ repoFullName))
      | Some repoMap \<Rightarrow>
          (case repoMap number of
             None \<Rightarrow> Inl (Err (''issue '' @ repoFullName @ ''#'' @ string_of_int number
                                @ '' not found''))
           | Some issue \<Rightarrow> Inr issue))"

definition Cache_UpdateIssue :: "Cache \<Rightarrow> Issue \<Rightarrow> failure option \<times> Cache" where
  "Cache_UpdateIssue c issue =
     (let rfn = issue_RepositoryFullName issue in
      if repositories c rfn = None
      then (Some (Err (''repository '' @ rfn @ '' not found'')), c)
      else case issues c rfn of
        None \<Rightarrow> (Some (Err (''no issues found for repository '' @ rfn)), c)
      | Some repoMap \<Rightarrow>
          if repoMap (issue_Number issue) = None
          then (Some (Err (''issue '' @ rfn @ ''#'' @ string_of_int (issue_Number issue)
                            @ '' not found'')), c)
          else (None, c\<lparr>issues := (issues c)(rfn \<mapsto> repoMap(issue_Number issue \<mapsto> issue))\<rparr>))"

definition Cache_ListIssues ::
  "Cache \<Rightarrow> string \<Rightarrow> int list \<Rightarrow> int \<Rightarrow> int \<Rightarrow> failure + (Issue list \<times> int)" where
  "Cache_ListIssues c repoFullName ks page perPage =
     (if repositories c repoFullName = None
      then Inl (Err (''repository '' @ repoFullName @ '' not found''))
      else case issues c repoFullName of
        None \<Rightarrow> Inr ([], 0)
      | Some repoMap \<Rightarrow>
          let total' = len_map repoMap;
              xs = range_values repoMap ks
          in (case apply_pagination xs total' page perPage of
                Inl e \<Rightarrow> Inl e
              | Inr ys \<Rightarrow> Inr (ys, total')))"

subsection \<open>Label operations\<close>

definition Cache_AddLabel :: "Cache \<Rightarrow> Label \<Rightarrow> failure option \<times> Cache" where
  "Cache_AddLabel c label =
     (if labels c (label_Name label) \<noteq> None
      then (Some (Err (''label '' @ label_Name label @ '' already exists'')), c)
      else (None, c\<lparr>labels := (labels c)(label_Name label \<mapsto> label)\<rparr>))"

definition Cache_GetLabel :: "Cache \<Rightarrow> string \<Rightarrow> failure + Label" where
  "Cache_GetLabel c name =
     (case labels c name of
        None \<Rightarrow> Inl (Err (''label '' @ name @ '' not found''))
      | Some label \<Rightarrow> Inr label)"

definition Cache_AddPullRequestLabel ::
  "Cache \<Rightarrow> string \<Rightarrow> int \<Rightarrow> string \<Rightarrow> failure option \<times> Cache" where
  "Cache_AddPullRequestLabel c repoFullName prNumber labelName =
     (if repositories c repoFullName = None
      then (Some (Err (''repository '' @ repoFullName @ '' not found'')), c)
      else case pullRequests c repoFullName of
        None \<Rightarrow> (Some (Err (''no pull requests found for repository '' @ repoFullName)), c)
      | Some repoMap \<Rightarrow>
          if repoMap prNumber = None
          then (Some (Err (''pull request '' @ repoFullName @ ''#'' @ string_of_int prNumber
                            @ '' not found'')), c)
          else if labels c labelName = None
          then (Some (Err (''label '' @ labelName @ '' not found'')), c)
          else
            let byPR = (case prLabels c repoFullName of None \<Rightarrow> Map.empty | Some m \<Rightarrow> m);
                names = (case byPR prNumber of None \<Rightarrow> {} | Some s \<Rightarrow> s)
            in (None, c\<lparr>prLabels :=
                  (prLabels c)(repoFullName \<mapsto> byPR(prNumber \<mapsto> insert labelName names))\<rparr>))"

text \<open>\<open>ks\<close> is the order in which \<^verbatim>\<open>range c.prLabels[repoFullName][prNumber]\<close> visits the names.\<close>

definition Cache_ListPullRequestLabels ::
  "Cache \<Rightarrow> string \<Rightarrow> int \<Rightarrow> string list \<Rightarrow> failure + Label list" where
  "Cache_ListPullRequestLabels c repoFullName prNumber ks =
     (if repositories c repoFullName = None
      then Inl (Err (''repository '' @ repoFullName @ '' not found''))
      else case pullRequests c repoFullName of
        None \<Rightarrow> Inl (Err (''no pull requests found for repository '' @ repoFullName))
      | Some repoMap \<Rightarrow>
          if repoMap prNumber = None
          then Inl (Err (''pull request '' @ repoFullName @ ''#'' @ string_of_int prNumber
                          @ '' not found''))
          else (case prLabels c repoFullName of
                  None \<Rightarrow> Inr []
                | Some byPR \<Rightarrow>
                    (case byPR prNumber of
                       None \<Rightarrow> Inr []
                     | Some names \<Rightarrow>
                         Inr (List.map_filter (labels c) (filter (\<lambda>k. k \<in> names) ks)))))"

definition Cache_AddIssueLabel ::
  "Cache \<Rightarrow> string \<Rightarrow> int \<Rightarrow> string \<Rightarrow> failure option \<times> Cache" where
  "Cache_AddIssueLabel c repoFullName issueNumber labelName =
     (if repositories c repoFullName = None
      then (Some (Err (''repository '' @ repoFullName @ '' not found'')), c)
      else case issues c repoFullName of
        None \<Rightarrow> (Some (Err (''no issues found for repository '' @ repoFullName)), c)
      | Some repoMap \<Rightarrow>
          if repoMap issueNumber = None
          then (Some (Err (''issue '' @ repoFullName @ ''#'' @ string_of_int issueNumber
                            @ '' not found'')), c)
          else if labels c labelName = None
          then (Some (Err (''label '' @ labelName @ '' not found'')), c)
          else
            let byIssue = (case issueLabels c repoFullName of None \<Rightarrow> Map.empty | Some m \<Rightarrow> m);
                names = (case byIssue issueNumber of None \<Rightarrow> {} | Some s \<Rightarrow> s)
            in (None, c\<lparr>issueLabels :=
                  (issueLabels c)(repoFullName \<mapsto> byIssue(issueNumber \<mapsto> insert labelName names))\<rparr>))"

definition Cache_ListIssueLabels ::
  "Cache \<Rightarrow> string \<Rightarrow> int \<Rightarrow> string list \<Rightarrow> failure + Label list" where
  "Cache_ListIssueLabels c repoFullName issueNumber ks =
     (if repositories c repoFullName = None
      then Inl (Err (''repository '' @ repoFullName @ '' not found''))
      else case issues c repoFullName of
        None \<Rightarrow> Inl (Err (''no issues found for repository '' @ repoFullName))
      | Some repoMap \<Rightarrow>
          if repoMap issueNumber = None
          then Inl (Err (''issue '' @ repoFullName @ ''#'' @ string_of_int issueNumber
                          @ '' not found''))
          else (case issueLabels c repoFullName of
                  None \<Rightarrow> Inr []
                | Some byIssue \<Rightarrow>
                    (case byIssue issueNumber of
                       None \<Rightarrow> Inr []
                     | Some names \<Rightarrow>
                         Inr (List.map_filter (labels c) (filter (\<lambda>k. k \<in> names) ks)))))"

section \<open>The external source (internal/github)\<close>

record gh_User =
  user_Login :: string
  user_AvatarURL :: string
  user_URL :: string
  user_HTMLURL :: string

record gh_Label =
  ghlabel_Name :: string
  ghlabel_Color :: string
  ghlabel_Description :: string

record gh_Repository =
  ghrepo_Owner :: gh_User
  ghrepo_Name :: string
  ghrepo_FullName :: string
  ghrepo_Description :: string
  ghrepo_URL :: string
  ghrepo_HTMLURL :: string
  ghrepo_Private :: bool
  ghrepo_CreatedAt :: time
  ghrepo_UpdatedAt :: time

record gh_PullRequest =
  ghpr_Number :: int
  ghpr_Title :: string
  ghpr_Body :: string
  ghpr_State :: string
  ghpr_URL :: string
  ghpr_HTMLURL :: string
  ghpr_User :: gh_User
  ghpr_CreatedAt :: time
  ghpr_UpdatedAt :: time
  ghpr_ClosedAt :: "time option"
  ghpr_MergedAt :: "time option"
  ghpr_Labels :: "gh_Label list"

record gh_Issue =
  ghissue_Number :: int
  ghissue_Title :: string
  ghissue_Body :: string
  ghissue_State :: string
  ghissue_URL :: string
  ghissue_HTMLURL :: string
  ghissue_User :: gh_User
  ghissue_CreatedAt :: time
  ghissue_UpdatedAt :: time
  ghissue_ClosedAt :: "time option"
  ghissue_Labels :: "gh_Label list"

record gh_RateLimit =
  rl_Limit :: int
  rl_Remaining :: int
  rl_Reset :: int

text \<open>\<^verbatim>\<open>PullRequestOptions\<close> and \<^verbatim>\<open>IssueOptions\<close> have the same five fields.\<close>

record gh_Options =
  opt_State :: string
  opt_Sort :: string
  opt_Direction :: string
  opt_PerPage :: int
  opt_Page :: int

text \<open>
  \<^verbatim>\<open>ClientInterface\<close>: what the external source answers while one operation of the
  service runs (\<open>Inl\<close> carries the message of the returned error). Every call the
  service makes on the client is appended to the \<open>ghCalls\<close> of the service state, so
  that "no fetch is made" is a statement about that log.
\<close>

record ghClient =
  gh_GetRepository :: "string \<Rightarrow> string \<Rightarrow> string + gh_Repository"
  gh_ListPullRequests :: "string \<Rightarrow> string \<Rightarrow> gh_Options \<Rightarrow> string + gh_PullRequest list"
  gh_ListIssues :: "string \<Rightarrow> string \<Rightarrow> gh_Options \<Rightarrow> string + gh_Issue list"
  gh_GetRateLimit :: "string + gh_RateLimit"

datatype gh_call =
    GetRepositoryCall string string
  | ListPullRequestsCall string string gh_Options
  | ListIssuesCall string string gh_Options
  | GetRateLimitCall

section \<open>Library functions of Go that the service uses\<close>

text \<open>\<^verbatim>\<open>strings.Split(s, sep)\<close> for a separator of one byte.\<close>

fun strings_Split :: "string \<Rightarrow> char \<Rightarrow> string list" where
  "strings_Split [] sep = [[]]"
| "strings_Split (ch # cs) sep =
     (if ch = sep then [] # strings_Split cs sep
      else (case strings_Split cs sep of
              [] \<Rightarrow> [[ch]]
            | p # ps \<Rightarrow> (ch # p) # ps))"

definition strings_HasPrefix :: "string \<Rightarrow> string \<Rightarrow> bool" where
  "strings_HasPrefix s prefix \<longleftrightarrow> take (length prefix) s = prefix"

text \<open>
  \<^verbatim>\<open>strings.EqualFold\<close> and \<^verbatim>\<open>sort.Slice\<close> belong to the standard library of Go, whose code
  is not part of the repository. The functions of the service that call them take them as
  the arguments \<open>equalFold\<close> and \<open>sortSlice\<close>.

  Nothing is assumed of \<open>equalFold\<close>. Of \<open>sortSlice\<close> the documented behaviour of
  \<^verbatim>\<open>sort.Slice(xs, less)\<close> is assumed where a statement needs it: the result is a
  rearrangement of \<open>xs\<close> in which no element is \<open>less\<close> than an element before it. The
  order among elements that \<open>less\<close> does not separate is left open, as \<^verbatim>\<open>sort.Slice\<close> is
  not stable.
\<close>

type_synonym equal_fold = "string \<Rightarrow> string \<Rightarrow> bool"

type_synonym 'a sort_slice = "('a \<Rightarrow> 'a \<Rightarrow> bool) \<Rightarrow> 'a list \<Rightarrow> 'a list"

definition is_sort_Slice :: "'a sort_slice \<Rightarrow> ('a \<Rightarrow> 'a \<Rightarrow> bool) \<Rightarrow> bool" where
  "is_sort_Slice sortSlice lessFn \<longleftrightarrow>
     (\<forall>xs. mset (sortSlice lessFn xs) = mset xs
         \<and> sorted_wrt (\<lambda>a b. \<not> lessFn b a) (sortSlice lessFn xs))"

text \<open>
  The insertion sort is one function that behaves as \<^verbatim>\<open>sort.Slice\<close> may. It serves as
  the instance where a statement is applied to a concrete sorting function.
\<close>

fun insert_by :: "('a \<Rightarrow> 'a \<Rightarrow> bool) \<Rightarrow> 'a \<Rightarrow> 'a list \<Rightarrow> 'a list" where
  "insert_by lessFn x [] = [x]"
| "insert_by lessFn x (y # ys) = (if lessFn y x then y # insert_by lessFn x ys else x # y # ys)"

fun insertion_sort :: "'a sort_slice" where
  "insertion_sort lessFn [] = []"
| "insertion_sort lessFn (x # xs) = insert_by lessFn x (insertion_sort lessFn xs)"

text \<open>\<^verbatim>\<open>fmt.Errorf(prefix + "%w", err)\<close>, and the text that \<^verbatim>\<open>%v\<close> prints for an error.\<close>

fun errorf_wrap :: "string \<Rightarrow> failure \<Rightarrow> failure" where
  "errorf_wrap prefix (Err m) = Err (prefix @ m)"
| "errorf_wrap prefix (Panic m) = Panic m"

fun error_text :: "failure \<Rightarrow> string" where
  "error_text (Err m) = m"
| "error_text (Panic m) = m"

section \<open>The service (internal/service)\<close>

definition ErrRepositoryExists :: failure where
  "ErrRepositoryExists = Err ''repository already exists''"

definition ErrRepositoryNotFound :: failure where
  "ErrRepositoryNotFound = Err ''repository not found''"

definition ErrInvalidRepositoryName :: failure where
  "ErrInvalidRepositoryName = Err ''invalid repository name format''"

text \<open>
  The state of a \<^verbatim>\<open>Service\<close>: the store, the sync-status map, the start time, and the log
  of the calls made on \<^verbatim>\<open>ghClient\<close>. The client itself and the clock (\<^verbatim>\<open>time.Now()\<close>) are
  arguments \<open>gh\<close> and \<open>now\<close> of the operations. Log output is not modelled.
\<close>

record Service =
  cache :: Cache
  syncStatus :: "string \<rightharpoonup> string"
  startTime :: time
  ghCalls :: "gh_call list"

definition NewService :: "time \<Rightarrow> Service" where
  "NewService now = \<lparr>cache = NewCache, syncStatus = Map.empty, startTime = now, ghCalls = []\<rparr>"

subsection \<open>Tracking a repository\<close>

text \<open>
  \<^verbatim>\<open>AddRepository\<close> returns the record or the error, the state after the call, and the
  background sync cycles it has dispatched with \<^verbatim>\<open>go func\<close> (each a pair of the owner
  and the name that \<^verbatim>\<open>syncRepository\<close> will be called with).
\<close>

definition Service_AddRepository ::
  "ghClient \<Rightarrow> time \<Rightarrow> Service \<Rightarrow> string
     \<Rightarrow> (failure + Repository) \<times> Service \<times> (string \<times> string) list" where
  "Service_AddRepository gh now s fullName =
     (case strings_Split fullName CHR ''/'' of
        [owner, name] \<Rightarrow>
          (case Cache_GetRepository (cache s) owner name of
             Inr existingRepo \<Rightarrow> (Inr existingRepo, s, [])
           | Inl _ \<Rightarrow>
               let s1 = s\<lparr>ghCalls := ghCalls s @ [GetRepositoryCall owner name]\<rparr> in
               (case gh_GetRepository gh owner name of
                  Inl err \<Rightarrow>
                    (Inl (Err (''failed to get repository from GitHub: '' @ err)), s1, [])
                | Inr ghRepo \<Rightarrow>
                    let repo = \<lparr>repo_Owner = user_Login (ghrepo_Owner ghRepo),
                                repo_Name = ghrepo_Name ghRepo,
                                repo_FullName = ghrepo_FullName ghRepo,
                                repo_Description = ghrepo_Description ghRepo,
                                repo_URL = ghrepo_URL ghRepo,
                                repo_HTMLURL = ghrepo_HTMLURL ghRepo,
                                repo_IsPrivate = ghrepo_Private ghRepo,
                                repo_LastSyncedAt = now,
                                repo_CreatedAt = ghrepo_CreatedAt ghRepo,
                                repo_UpdatedAt = ghrepo_UpdatedAt ghRepo\<rparr>
                    in (case Cache_AddRepository (cache s1) repo of
                          (Some e, c1) \<Rightarrow>
                            (Inl (errorf_wrap ''failed to add repository to cache: '' e),
                             s1\<lparr>cache := c1\<rparr>, [])
                        | (None, c1) \<Rightarrow> (Inr repo, s1\<lparr>cache := c1\<rparr>, [(owner, name)]))))
      | _ \<Rightarrow> (Inl ErrInvalidRepositoryName, s, []))"

definition Service_GetRepository :: "Service \<Rightarrow> string \<Rightarrow> string \<Rightarrow> failure + Repository" where
  "Service_GetRepository s owner name =
     (case Cache_GetRepository (cache s) owner name of
        Inl _ \<Rightarrow> Inl ErrRepositoryNotFound
      | Inr repo \<Rightarrow> Inr repo)"

definition Service_ListRepositories ::
  "Service \<Rightarrow> string list \<Rightarrow> int \<Rightarrow> int \<Rightarrow> failure + (Repository list \<times> int)" where
  "Service_ListRepositories s ks page perPage = Cache_ListRepositories (cache s) ks page perPage"

definition Service_DeleteRepository ::
  "Service \<Rightarrow> string \<Rightarrow> string \<Rightarrow> failure option \<times> Service" where
  "Service_DeleteRepository s owner name =
     (case Cache_DeleteRepository (cache s) owner name of
        (Some _, c1) \<Rightarrow> (Some ErrRepositoryNotFound, s\<lparr>cache := c1\<rparr>)
      | (None, c1) \<Rightarrow> (None, s\<lparr>cache := c1\<rparr>))"

text \<open>The second component is the list of sync cycles dispatched in the background.\<close>

definition Service_RefreshRepository ::
  "Service \<Rightarrow> string \<Rightarrow> string \<Rightarrow> failure option \<times> (string \<times> string) list" where
  "Service_RefreshRepository s owner name =
     (case Cache_GetRepository (cache s) owner name of
        Inl _ \<Rightarrow> (Some ErrRepositoryNotFound, [])
      | Inr _ \<Rightarrow> (None, [(owner, name)]))"

definition Service_RefreshAll ::
  "Service \<Rightarrow> string list \<Rightarrow> failure option \<times> (string \<times> string) list" where
  "Service_RefreshAll s ks =
     (case Cache_ListRepositories (cache s) ks 1 1000 of
        Inl e \<Rightarrow> (Some (errorf_wrap ''failed to list repositories: '' e), [])
      | Inr (repos, _) \<Rightarrow> (None, map (\<lambda>repo. (repo_Owner repo, repo_Name repo)) repos))"

subsection \<open>One sync cycle\<close>

definition sync_options :: gh_Options where
  "sync_options = \<lparr>opt_State = ''all'', opt_Sort = ''updated'', opt_Direction = ''desc'',
     opt_PerPage = 100, opt_Page = 1\<rparr>"

text \<open>The inner loop \<^verbatim>\<open>// Process labels\<close> of \<^verbatim>\<open>syncPullRequests\<close>.\<close>

fun sync_pr_labels :: "Cache \<Rightarrow> string \<Rightarrow> int \<Rightarrow> gh_Label list \<Rightarrow> Cache" where
  "sync_pr_labels c rfn number [] = c"
| "sync_pr_labels c rfn number (ghLabel # rest) =
     (let label = \<lparr>label_Name = ghlabel_Name ghLabel, label_Color = ghlabel_Color ghLabel,
                    label_Description = ghlabel_Description ghLabel\<rparr>
      in case Cache_GetLabel c (ghlabel_Name ghLabel) of
           Inr _ \<Rightarrow>
             sync_pr_labels (snd (Cache_AddPullRequestLabel c rfn number (ghlabel_Name ghLabel)))
               rfn number rest
         | Inl _ \<Rightarrow>
             (case Cache_AddLabel c label of
                (Some _, c1) \<Rightarrow> sync_pr_labels c1 rfn number rest
              | (None, c1) \<Rightarrow>
                  sync_pr_labels
                    (snd (Cache_AddPullRequestLabel c1 rfn number (ghlabel_Name ghLabel)))
                    rfn number rest))"

text \<open>The loop \<^verbatim>\<open>// Process pull requests\<close>: an item that fails to upsert is skipped.\<close>

fun sync_pr_items :: "Cache \<Rightarrow> Repository \<Rightarrow> gh_PullRequest list \<Rightarrow> Cache" where
  "sync_pr_items c repo [] = c"
| "sync_pr_items c repo (ghPR # rest) =
     (let pr = \<lparr>pr_RepositoryFullName = repo_FullName repo,
                 pr_Number = ghpr_Number ghPR,
                 pr_Title = ghpr_Title ghPR,
                 pr_Body = ghpr_Body ghPR,
                 pr_State = ghpr_State ghPR,
                 pr_URL = ghpr_URL ghPR,
                 pr_HTMLURL = ghpr_HTMLURL ghPR,
                 pr_UserLogin = user_Login (ghpr_User ghPR),
                 pr_UserAvatarURL = user_AvatarURL (ghpr_User ghPR),
                 pr_UserURL = user_URL (ghpr_User ghPR),
                 pr_UserHTMLURL = user_HTMLURL (ghpr_User ghPR),
                 pr_CreatedAt = ghpr_CreatedAt ghPR,
                 pr_UpdatedAt = ghpr_UpdatedAt ghPR,
                 pr_ClosedAt = ghpr_ClosedAt ghPR,
                 pr_MergedAt = ghpr_MergedAt ghPR\<rparr>;
          upsert = (case Cache_GetPullRequest c (repo_FullName repo) (ghpr_Number ghPR) of
                      Inr _ \<Rightarrow> Cache_UpdatePullRequest c pr
                    | Inl _ \<Rightarrow> Cache_AddPullRequest c pr)
      in case upsert of
           (Some _, c1) \<Rightarrow> sync_pr_items c1 repo rest
         | (None, c1) \<Rightarrow>
             sync_pr_items
               (sync_pr_labels c1 (repo_FullName repo) (ghpr_Number ghPR) (ghpr_Labels ghPR))
               repo rest)"

definition syncPullRequests ::
  "ghClient \<Rightarrow> Service \<Rightarrow> string \<Rightarrow> string \<Rightarrow> failure option \<times> Service" where
  "syncPullRequests gh s owner name =
     (case Cache_GetRepository (cache s) owner name of
        Inl e \<Rightarrow> (Some (errorf_wrap ''repository not found: '' e), s)
      | Inr repo \<Rightarrow>
          let s1 = s\<lparr>ghCalls := ghCalls s @ [ListPullRequestsCall owner name sync_options]\<rparr> in
          (case gh_ListPullRequests gh owner name sync_options of
             Inl err \<Rightarrow> (Some (Err (''failed to list pull requests: '' @ err)), s1)
           | Inr prs \<Rightarrow> (None, s1\<lparr>cache := sync_pr_items (cache s1) repo prs\<rparr>)))"

text \<open>The inner loop \<^verbatim>\<open>// Process labels\<close> of \<^verbatim>\<open>syncIssues\<close>.\<close>

fun sync_issue_labels :: "Cache \<Rightarrow> string \<Rightarrow> int \<Rightarrow> gh_Label list \<Rightarrow> Cache" where
  "sync_issue_labels c rfn number [] = c"
| "sync_issue_labels c rfn number (ghLabel # rest) =
     (let label = \<lparr>label_Name = ghlabel_Name ghLabel, label_Color = ghlabel_Color ghLabel,
                    label_Description = ghlabel_Description ghLabel\<rparr>
      in case Cache_GetLabel c (ghlabel_Name ghLabel) of
           Inr _ \<Rightarrow>
             sync_issue_labels (snd (Cache_AddIssueLabel c rfn number (ghlabel_Name ghLabel)))
               rfn number rest
         | Inl _ \<Rightarrow>
             (case Cache_AddLabel c label of
                (Some _, c1) \<Rightarrow> sync_issue_labels c1 rfn number rest
              | (None, c1) \<Rightarrow>
                  sync_issue_labels
                    (snd (Cache_AddIssueLabel c1 rfn number (ghlabel_Name ghLabel)))
                    rfn number rest))"

fun sync_issue_items :: "Cache \<Rightarrow> Repository \<Rightarrow> gh_Issue list \<Rightarrow> Cache" where
  "sync_issue_items c repo [] = c"
| "sync_issue_items c repo (ghIssue # rest) =
     (let issue = \<lparr>issue_RepositoryFullName = repo_FullName repo,
                    issue_Number = ghissue_Number ghIssue,
                    issue_Title = ghissue_Title ghIssue,
                    issue_Body = ghissue_Body ghIssue,
                    issue_State = ghissue_State ghIssue,
                    issue_URL = ghissue_URL ghIssue,
                    issue_HTMLURL = ghissue_HTMLURL ghIssue,
                    issue_UserLogin = user_Login (ghissue_User ghIssue),
                    issue_UserAvatarURL = user_AvatarURL (ghissue_User ghIssue),
                    issue_UserURL = user_URL (ghissue_User ghIssue),
                    issue_UserHTMLURL = user_HTMLURL (ghissue_User ghIssue),
                    issue_CreatedAt = ghissue_CreatedAt ghIssue,
                    issue_UpdatedAt = ghissue_UpdatedAt ghIssue,
                    issue_ClosedAt = ghissue_ClosedAt ghIssue\<rparr>;
          upsert = (case Cache_GetIssue c (repo_FullName repo) (ghissue_Number ghIssue) of
                      Inr _ \<Rightarrow> Cache_UpdateIssue c issue
                    | Inl _ \<Rightarrow> Cache_AddIssue c issue)
      in case upsert of
           (Some _, c1) \<Rightarrow> sync_issue_items c1 repo rest
         | (None, c1) \<Rightarrow>
             sync_issue_items
               (sync_issue_labels c1 (repo_FullName repo) (ghissue_Number ghIssue)
                  (ghissue_Labels ghIssue))
               repo rest)"

definition syncIssues ::
  "ghClient \<Rightarrow> Service \<Rightarrow> string \<Rightarrow> string \<Rightarrow> failure option \<times> Service" where
  "syncIssues gh s owner name =
     (case Cache_GetRepository (cache s) owner name of
        Inl e \<Rightarrow> (Some (errorf_wrap ''repository not found: '' e), s)
      | Inr repo \<Rightarrow>
          let s1 = s\<lparr>ghCalls := ghCalls s @ [ListIssuesCall owner name sync_options]\<rparr> in
          (case gh_ListIssues gh owner name sync_options of
             Inl err \<Rightarrow> (Some (Err (''failed to list issues: '' @ err)), s1)
           | Inr xs \<Rightarrow> (None, s1\<lparr>cache := sync_issue_items (cache s1) repo xs\<rparr>)))"

text \<open>
  \<^verbatim>\<open>syncRepository\<close> is its body followed by the deferred function, which deletes the
  status entry on every way out. \<open>syncRepository_body\<close> is the body alone: its result
  state is the state of the service at the moment the body returns, after the last
  \<^verbatim>\<open>syncMutex.Unlock()\<close> of the body and before the deferred function takes the mutex, a
  state that a concurrent \<^verbatim>\<open>GetStatus\<close> can observe.

  \<^verbatim>\<open>repo\<close> is the pointer that the store holds under \<open>owner/name\<close>, so the assignment
  \<^verbatim>\<open>repo.LastSyncedAt = time.Now()\<close> writes into the stored record: it is the update of
  the map at \<open>fullName\<close> below, which \<^verbatim>\<open>UpdateRepository\<close> then follows.
\<close>

definition syncRepository_body ::
  "ghClient \<Rightarrow> time \<Rightarrow> Service \<Rightarrow> string \<Rightarrow> string \<Rightarrow> failure option \<times> Service" where
  "syncRepository_body gh now s owner name =
     (let fullName = owner @ ''/'' @ name;
          s0 = s\<lparr>syncStatus := (syncStatus s)(fullName \<mapsto> ''syncing'')\<rparr>
      in case Cache_GetRepository (cache s0) owner name of
           Inl e \<Rightarrow>
             (Some (errorf_wrap ''repository not found: '' e),
              s0\<lparr>syncStatus := (syncStatus s0)(fullName \<mapsto> ''error: '' @ error_text e)\<rparr>)
         | Inr repo \<Rightarrow>
             (case syncPullRequests gh s0 owner name of
                (Some e, s1) \<Rightarrow>
                  (Some (errorf_wrap ''failed to sync pull requests: '' e),
                   s1\<lparr>syncStatus := (syncStatus s1)
                        (fullName \<mapsto> ''error syncing pull requests: '' @ error_text e)\<rparr>)
              | (None, s1) \<Rightarrow>
                  (case syncIssues gh s1 owner name of
                     (Some e, s2) \<Rightarrow>
                       (Some (errorf_wrap ''failed to sync issues: '' e),
                        s2\<lparr>syncStatus := (syncStatus s2)
                             (fullName \<mapsto> ''error syncing issues: '' @ error_text e)\<rparr>)
                   | (None, s2) \<Rightarrow>
                       let repo' = repo\<lparr>repo_LastSyncedAt := now\<rparr>;
                           c2 = (cache s2)\<lparr>repositories :=
                                  (repositories (cache s2))(fullName \<mapsto> repo')\<rparr>
                       in (case Cache_UpdateRepository c2 repo' of
                             (Some e, c3) \<Rightarrow>
                               (Some (errorf_wrap ''failed to update last synced time: '' e),
                                s2\<lparr>cache := c3\<rparr>)
                           | (None, c3) \<Rightarrow> (None, s2\<lparr>cache := c3\<rparr>)))))"

definition syncRepository ::
  "ghClient \<Rightarrow> time \<Rightarrow> Service \<Rightarrow> string \<Rightarrow> string \<Rightarrow> failure option \<times> Service" where
  "syncRepository gh now s owner name =
     (case syncRepository_body gh now s owner name of
        (err, s1) \<Rightarrow> (err, s1\<lparr>syncStatus := (syncStatus s1)(owner @ ''/'' @ name := None)\<rparr>))"

subsection \<open>Listing pull requests and issues\<close>

record PullRequestFilter =
  prf_State :: string
  prf_Author :: string
  prf_Repo :: string
  prf_Label :: string
  prf_SortBy :: string
  prf_Direction :: string
  prf_Since :: time
  prf_GroupBy :: string
  prf_Page :: int
  prf_PerPage :: int

record IssueFilter =
  isf_State :: string
  isf_Author :: string
  isf_Repo :: string
  isf_Label :: string
  isf_SortBy :: string
  isf_Direction :: string
  isf_Since :: time
  isf_GroupBy :: string
  isf_Page :: int
  isf_PerPage :: int

record Pagination =
  pg_Page :: int
  pg_PerPage :: int
  pg_Total :: int
  pg_TotalPages :: int

text \<open>
  The block \<^verbatim>\<open>// Apply pagination\<close> at the end of \<^verbatim>\<open>listAllPullRequests\<close> and of
  \<^verbatim>\<open>listAllIssues\<close> (the same statements in both), on the filtered and sorted slice.
\<close>

definition paginate_filtered :: "'a list \<Rightarrow> int \<Rightarrow> int \<Rightarrow> failure + ('a list \<times> Pagination)" where
  "paginate_filtered xs page perPage =
     (let total' = int (length xs);
          start = int_mul (int_sub page 1) perPage
      in if start \<ge> total'
         then (case int_quo (int_sub (int_add total' perPage) 1) perPage of
                 Inl e \<Rightarrow> Inl e
               | Inr totalPages \<Rightarrow>
                   Inr ([], \<lparr>pg_Page = page, pg_PerPage = perPage, pg_Total = total',
                             pg_TotalPages = totalPages\<rparr>))
         else
           let end0 = int_add start perPage;
               end1 = (if end0 > total' then total' else end0)
           in (case int_quo (int_sub (int_add total' perPage) 1) perPage of
                 Inl e \<Rightarrow> Inl e
               | Inr totalPages \<Rightarrow>
                   (case go_slice xs start end1 of
                      Inl e \<Rightarrow> Inl e
                    | Inr ys \<Rightarrow>
                        Inr (ys, \<lparr>pg_Page = page, pg_PerPage = perPage, pg_Total = total',
                                  pg_TotalPages = totalPages\<rparr>))))"

text \<open>
  The loop \<^verbatim>\<open>// Collect all pull requests\<close>: a repository whose listing returns an error
  contributes nothing. \<open>io r\<close> is the order in which the listing of repository \<open>r\<close>
  ranges over its map.
\<close>

fun collect_pull_requests ::
  "Cache \<Rightarrow> (string \<Rightarrow> int list) \<Rightarrow> Repository list \<Rightarrow> failure + PullRequest list" where
  "collect_pull_requests c io [] = Inr []"
| "collect_pull_requests c io (repo # rest) =
     (case Cache_ListPullRequests c (repo_FullName repo) (io (repo_FullName repo)) 1 1000 of
        Inl (Panic m) \<Rightarrow> Inl (Panic m)
      | Inl (Err _) \<Rightarrow> collect_pull_requests c io rest
      | Inr (prs, _) \<Rightarrow>
          (case collect_pull_requests c io rest of
             Inl e \<Rightarrow> Inl e
           | Inr others \<Rightarrow> Inr (prs @ others)))"

definition pr_passes :: "equal_fold \<Rightarrow> PullRequestFilter \<Rightarrow> PullRequest \<Rightarrow> bool" where
  "pr_passes equalFold f pr \<longleftrightarrow>
     \<not> (prf_State f \<noteq> [] \<and> \<not> equalFold (pr_State pr) (prf_State f)) \<and>
     \<not> (prf_Author f \<noteq> [] \<and> \<not> equalFold (pr_UserLogin pr) (prf_Author f))"

definition pr_less :: "PullRequestFilter \<Rightarrow> PullRequest \<Rightarrow> PullRequest \<Rightarrow> bool" where
  "pr_less f a b =
     (if prf_Direction f = ''asc'' then pr_CreatedAt a < pr_CreatedAt b
      else pr_CreatedAt a > pr_CreatedAt b)"

text \<open>
  \<^verbatim>\<open>listAllPullRequests\<close> up to the comment \<^verbatim>\<open>// Apply pagination\<close>: the repositories of
  the scope, their pull requests, the filters and \<^verbatim>\<open>sort.Slice\<close>. The result is the slice
  \<^verbatim>\<open>filteredPRs\<close> that is paginated afterwards. \<open>ro\<close> is the order of the range over
  the repositories (used when no scope is given).
\<close>

definition filteredPRs ::
  "equal_fold \<Rightarrow> PullRequest sort_slice \<Rightarrow> Service \<Rightarrow> PullRequestFilter \<Rightarrow> string list
     \<Rightarrow> (string \<Rightarrow> int list) \<Rightarrow> failure + PullRequest list" where
  "filteredPRs equalFold sortSlice s f ro io =
     (case (if prf_Repo f \<noteq> []
            then (case strings_Split (prf_Repo f) CHR ''/'' of
                    [owner, name] \<Rightarrow>
                      (case Cache_GetRepository (cache s) owner name of
                         Inl _ \<Rightarrow> Inl ErrRepositoryNotFound
                       | Inr repo \<Rightarrow> Inr [repo])
                  | _ \<Rightarrow> Inl ErrInvalidRepositoryName)
            else (case Cache_ListRepositories (cache s) ro 1 1000 of
                    Inl e \<Rightarrow> Inl (errorf_wrap ''failed to list repositories: '' e)
                  | Inr (repos, _) \<Rightarrow> Inr repos)) of
        Inl e \<Rightarrow> Inl e
      | Inr repos \<Rightarrow>
          (case collect_pull_requests (cache s) io repos of
             Inl e \<Rightarrow> Inl e
           | Inr allPRs \<Rightarrow>
               Inr (sortSlice (pr_less f) (filter (pr_passes equalFold f) allPRs))))"

definition listAllPullRequests ::
  "equal_fold \<Rightarrow> PullRequest sort_slice \<Rightarrow> Service \<Rightarrow> PullRequestFilter \<Rightarrow> string list
     \<Rightarrow> (string \<Rightarrow> int list) \<Rightarrow> failure + (PullRequest list \<times> Pagination)" where
  "listAllPullRequests equalFold sortSlice s f ro io =
     (case filteredPRs equalFold sortSlice s f ro io of
        Inl e \<Rightarrow> Inl e
      | Inr xs \<Rightarrow> paginate_filtered xs (prf_Page f) (prf_PerPage f))"

fun collect_issues ::
  "Cache \<Rightarrow> (string \<Rightarrow> int list) \<Rightarrow> Repository list \<Rightarrow> failure + Issue list" where
  "collect_issues c io [] = Inr []"
| "collect_issues c io (repo # rest) =
     (case Cache_ListIssues c (repo_FullName repo) (io (repo_FullName repo)) 1 1000 of
        Inl (Panic m) \<Rightarrow> Inl (Panic m)
      | Inl (Err _) \<Rightarrow> collect_issues c io rest
      | Inr (xs, _) \<Rightarrow>
          (case collect_issues c io rest of
             Inl e \<Rightarrow> Inl e
           | Inr others \<Rightarrow> Inr (xs @ others)))"

definition issue_passes :: "equal_fold \<Rightarrow> IssueFilter \<Rightarrow> Issue \<Rightarrow> bool" where
  "issue_passes equalFold f issue \<longleftrightarrow>
     \<not> (isf_State f \<noteq> [] \<and> \<not> equalFold (issue_State issue) (isf_State f)) \<and>
     \<not> (isf_Author f \<noteq> [] \<and> \<not> equalFold (issue_UserLogin issue) (isf_Author f))"

definition issue_less :: "IssueFilter \<Rightarrow> Issue \<Rightarrow> Issue \<Rightarrow> bool" where
  "issue_less f a b =
     (if isf_Direction f = ''asc'' then issue_CreatedAt a < issue_CreatedAt b
      else issue_CreatedAt a > issue_CreatedAt b)"

definition filteredIssues ::
  "equal_fold \<Rightarrow> Issue sort_slice \<Rightarrow> Service \<Rightarrow> IssueFilter \<Rightarrow> string list
     \<Rightarrow> (string \<Rightarrow> int list) \<Rightarrow> failure + Issue list" where
  "filteredIssues equalFold sortSlice s f ro io =
     (case (if isf_Repo f \<noteq> []
            then (case strings_Split (isf_Repo f) CHR ''/'' of
                    [owner, name] \<Rightarrow>
                      (case Cache_GetRepository (cache s) owner name of
                         Inl _ \<Rightarrow> Inl ErrRepositoryNotFound
                       | Inr repo \<Rightarrow> Inr [repo])
                  | _ \<Rightarrow> Inl ErrInvalidRepositoryName)
            else (case Cache_ListRepositories (cache s) ro 1 1000 of
                    Inl e \<Rightarrow> Inl (errorf_wrap ''failed to list repositories: '' e)
                  | Inr (repos, _) \<Rightarrow> Inr repos)) of
        Inl e \<Rightarrow> Inl e
      | Inr repos \<Rightarrow>
          (case collect_issues (cache s) io repos of
             Inl e \<Rightarrow> Inl e
           | Inr allIssues \<Rightarrow>
               Inr (sortSlice (issue_less f) (filter (issue_passes equalFold f) allIssues))))"

definition listAllIssues ::
  "equal_fold \<Rightarrow> Issue sort_slice \<Rightarrow> Service \<Rightarrow> IssueFilter \<Rightarrow> string list
     \<Rightarrow> (string \<Rightarrow> int list) \<Rightarrow> failure + (Issue list \<times> Pagination)" where
  "listAllIssues equalFold sortSlice s f ro io =
     (case filteredIssues equalFold sortSlice s f ro io of
        Inl e \<Rightarrow> Inl e
      | Inr xs \<Rightarrow> paginate_filtered xs (isf_Page f) (isf_PerPage f))"

subsection \<open>The status of the service\<close>

text \<open>
  The counts, the last sync time and the rate limit of the map that \<^verbatim>\<open>GetStatus\<close> returns
  (its constant entries and the uptime are left out). \<open>ro\<close> and \<open>so\<close> are the orders of
  the ranges over the repositories and over \<^verbatim>\<open>s.syncStatus\<close>.
\<close>

record Status =
  st_total :: int
  st_syncing :: int
  st_error :: int
  st_last_sync :: time
  st_limit :: int
  st_remaining :: int
  st_reset :: int

definition Service_GetStatus ::
  "ghClient \<Rightarrow> Service \<Rightarrow> string list \<Rightarrow> string list \<Rightarrow> (failure + Status) \<times> Service" where
  "Service_GetStatus gh s ro so =
     (case Cache_ListRepositories (cache s) ro 1 1000 of
        Inl e \<Rightarrow> (Inl (errorf_wrap ''failed to list repositories: '' e), s)
      | Inr (repos, total') \<Rightarrow>
          let syncing = len_map (syncStatus s);
              errors = foldl (\<lambda>n status. if strings_HasPrefix status ''error''
                                           then int_add n 1 else n)
                         0 (range_values (syncStatus s) so);
              s1 = s\<lparr>ghCalls := ghCalls s @ [GetRateLimitCall]\<rparr>
          in (case gh_GetRateLimit gh of
                Inl err \<Rightarrow> (Inl (Err (''failed to get rate limit: '' @ err)), s1)
              | Inr rateLimit \<Rightarrow>
                  let lastSync = foldl (\<lambda>t repo. if repo_LastSyncedAt repo > t
                                                  then repo_LastSyncedAt repo else t)
                                   0 repos
                  in (Inr \<lparr>st_total = total', st_syncing = syncing, st_error = errors,
                           st_last_sync = lastSync, st_limit = rl_Limit rateLimit,
                           st_remaining = rl_Remaining rateLimit,
                           st_reset = rl_Reset rateLimit\<rparr>, s1)))"

section \<open>A well-formed store, and the states of the worked examples\<close>

text \<open>
  Every method of the store files a repository under \<open>Owner/Name\<close> of the record, so in
  every store that the methods can build each key is the \<open>Owner/Name\<close> of its record.
\<close>

definition wf_cache :: "Cache \<Rightarrow> bool" where
  "wf_cache c \<longleftrightarrow>
     (\<forall>k r. repositories c k = Some r \<longrightarrow> k = repo_Owner r @ ''/'' @ repo_Name r)"

text \<open>
  An external source that knows the repository \<open>acme/widgets\<close> and whose pull request
  listing fails, and one that knows every repository of \<open>acme\<close> and whose listings
  succeed and are empty.
\<close>

definition acme_widgets :: gh_Repository where
  "acme_widgets = \<lparr>ghrepo_Owner = \<lparr>user_Login = ''acme'', user_AvatarURL = '''', user_URL = '''',
       user_HTMLURL = ''''\<rparr>,
     ghrepo_Name = ''widgets'', ghrepo_FullName = ''acme/widgets'', ghrepo_Description = '''',
     ghrepo_URL = '''', ghrepo_HTMLURL = '''', ghrepo_Private = False,
     ghrepo_CreatedAt = 7, ghrepo_UpdatedAt = 9\<rparr>"

definition gh_down :: ghClient where
  "gh_down = \<lparr>gh_GetRepository = (\<lambda>owner name.
        if owner = ''acme'' \<and> name = ''widgets'' then Inr acme_widgets else Inl ''not found''),
     gh_ListPullRequests = (\<lambda>owner name options. Inl ''upstream failure''),
     gh_ListIssues = (\<lambda>owner name options. Inr []),
     gh_GetRateLimit = Inr \<lparr>rl_Limit = 5000, rl_Remaining = 4999, rl_Reset = 0\<rparr>\<rparr>"

definition gh_up :: ghClient where
  "gh_up = \<lparr>gh_GetRepository = (\<lambda>owner name.
        if owner = ''acme''
        then Inr (acme_widgets\<lparr>ghrepo_Name := name, ghrepo_FullName := owner @ ''/'' @ name\<rparr>)
        else Inl ''not found''),
     gh_ListPullRequests = (\<lambda>owner name options. Inr []),
     gh_ListIssues = (\<lambda>owner name options. Inr []),
     gh_GetRateLimit = Inr \<lparr>rl_Limit = 5000, rl_Remaining = 4999, rl_Reset = 0\<rparr>\<rparr>"

text \<open>The record that \<^verbatim>\<open>AddRepository\<close> stores for \<open>acme/widgets\<close> at time 42.\<close>

definition widgets_record :: Repository where
  "widgets_record = \<lparr>repo_Owner = ''acme'', repo_Name = ''widgets'',
     repo_FullName = ''acme/widgets'', repo_Description = '''', repo_URL = '''',
     repo_HTMLURL = '''', repo_IsPrivate = False, repo_LastSyncedAt = 42, repo_CreatedAt = 7,
     repo_UpdatedAt = 9\<rparr>"

text \<open>The service after \<^verbatim>\<open>AddRepository("acme/widgets")\<close> on a new service, at time 42.\<close>

definition tracked :: Service where
  "tracked = fst (snd (Service_AddRepository gh_down 42 (NewService 0) ''acme/widgets''))"

text \<open>
  The service at the moment the body of a sync cycle for \<open>acme/widgets\<close> returns with a
  failed pull request stage, before the deferred function runs.
\<close>

definition failing :: Service where
  "failing = snd (syncRepository_body gh_down 50 tracked ''acme'' ''widgets'')"

text \<open>A pull request and an issue of \<open>acme/widgets\<close>, the same for a repository that is not
  tracked, and a label.\<close>

definition pr5 :: PullRequest where
  "pr5 = \<lparr>pr_RepositoryFullName = ''acme/widgets'', pr_Number = 5, pr_Title = ''Fix'',
     pr_Body = '''', pr_State = ''open'', pr_URL = '''', pr_HTMLURL = '''',
     pr_UserLogin = ''ann'', pr_UserAvatarURL = '''', pr_UserURL = '''', pr_UserHTMLURL = '''',
     pr_CreatedAt = 10, pr_UpdatedAt = 11, pr_ClosedAt = None, pr_MergedAt = None\<rparr>"

definition issue3 :: Issue where
  "issue3 = \<lparr>issue_RepositoryFullName = ''acme/widgets'', issue_Number = 3,
     issue_Title = ''Crash'', issue_Body = '''', issue_State = ''open'', issue_URL = '''',
     issue_HTMLURL = '''', issue_UserLogin = ''bob'', issue_UserAvatarURL = '''',
     issue_UserURL = '''', issue_UserHTMLURL = '''', issue_CreatedAt = 12, issue_UpdatedAt = 13,
     issue_ClosedAt = None\<rparr>"

definition bug_label :: Label where
  "bug_label = \<lparr>label_Name = ''bug'', label_Color = ''red'', label_Description = ''''\<rparr>"

text \<open>The store of \<open>tracked\<close> after adding \<open>pr5\<close>, \<open>issue3\<close> and the label \<open>bug\<close>, and
  after attaching the label to both.\<close>

definition stocked :: Cache where
  "stocked =
     snd (Cache_AddLabel (snd (Cache_AddIssue (snd (Cache_AddPullRequest (cache tracked) pr5))
       issue3)) bug_label)"

definition labelled :: Cache where
  "labelled =
     snd (Cache_AddIssueLabel (snd (Cache_AddPullRequestLabel stocked ''acme/widgets'' 5 ''bug''))
       ''acme/widgets'' 3 ''bug'')"

text \<open>A second repository \<open>acme/gadgets\<close> with a pull request that carries the label too.\<close>

definition gadgets_record :: Repository where
  "gadgets_record = widgets_record\<lparr>repo_Name := ''gadgets'', repo_FullName := ''acme/gadgets''\<rparr>"

definition pr7 :: PullRequest where
  "pr7 = pr5\<lparr>pr_RepositoryFullName := ''acme/gadgets'', pr_Number := 7\<rparr>"

definition two_repos :: Cache where
  "two_repos =
     snd (Cache_AddPullRequestLabel
       (snd (Cache_AddPullRequest (snd (Cache_AddRepository labelled gadgets_record)) pr7))
       ''acme/gadgets'' 7 ''bug'')"

text \<open>Queries without a scope and without filters, and a service whose store is \<open>stocked\<close>.\<close>

definition all_pull_requests :: "int \<Rightarrow> int \<Rightarrow> PullRequestFilter" where
  "all_pull_requests page perPage = \<lparr>prf_State = '''', prf_Author = '''', prf_Repo = '''',
     prf_Label = '''', prf_SortBy = '''', prf_Direction = '''', prf_Since = 0,
     prf_GroupBy = '''', prf_Page = page, prf_PerPage = perPage\<rparr>"

definition all_issues :: "int \<Rightarrow> int \<Rightarrow> IssueFilter" where
  "all_issues page perPage = \<lparr>isf_State = '''', isf_Author = '''', isf_Repo = '''',
     isf_Label = '''', isf_SortBy = '''', isf_Direction = '''', isf_Since = 0,
     isf_GroupBy = '''', isf_Page = page, isf_PerPage = perPage\<rparr>"

definition stocked_service :: Service where
  "stocked_service = tracked\<lparr>cache := stocked\<rparr>"

text \<open>
  The orders \<open>ro\<close> and \<open>io\<close> that a listing is given are orders in which the runtime can
  range over the repositories and over the items of each repository: \<open>items\<close> is the map
  \<open>pullRequests\<close> or \<open>issues\<close> of the store.
\<close>

definition runtime_orders ::
  "Cache \<Rightarrow> (string \<rightharpoonup> (int \<rightharpoonup> 'a)) \<Rightarrow> string list \<Rightarrow> (string \<Rightarrow> int list) \<Rightarrow> bool" where
  "runtime_orders c items ro io \<longleftrightarrow>
     range_order (repositories c) ro \<and> (\<forall>r m. items r = Some m \<longrightarrow> range_order m (io r))"

section \<open>The states of the worked examples, evaluated\<close>

lemma tracked_state:
  "tracked = \<lparr>cache = \<lparr>repositories = [''acme/widgets'' \<mapsto> widgets_record],
       pullRequests = [''acme/widgets'' \<mapsto> Map.empty],
       issues = [''acme/widgets'' \<mapsto> Map.empty],
       labels = Map.empty, prLabels = [''acme/widgets'' \<mapsto> Map.empty],
       issueLabels = [''acme/widgets'' \<mapsto> Map.empty]\<rparr>,
     syncStatus = Map.empty, startTime = 0,
     ghCalls = [GetRepositoryCall ''acme'' ''widgets'']\<rparr>"
  by (simp add: tracked_def Service_AddRepository_def NewService_def NewCache_def Let_def
      Cache_GetRepository_def gh_down_def acme_widgets_def Cache_AddRepository_def
      widgets_record_def)

lemma stocked_state:
  "stocked = \<lparr>repositories = [''acme/widgets'' \<mapsto> widgets_record],
     pullRequests = [''acme/widgets'' \<mapsto> [5 \<mapsto> pr5]],
     issues = [''acme/widgets'' \<mapsto> [3 \<mapsto> issue3]],
     labels = [''bug'' \<mapsto> bug_label], prLabels = [''acme/widgets'' \<mapsto> Map.empty],
     issueLabels = [''acme/widgets'' \<mapsto> Map.empty]\<rparr>"
  by (simp add: stocked_def tracked_state Cache_AddPullRequest_def Cache_AddIssue_def
      Cache_AddLabel_def Let_def pr5_def issue3_def bug_label_def)

lemma labelled_state:
  "labelled = \<lparr>repositories = [''acme/widgets'' \<mapsto> widgets_record],
     pullRequests = [''acme/widgets'' \<mapsto> [5 \<mapsto> pr5]],
     issues = [''acme/widgets'' \<mapsto> [3 \<mapsto> issue3]],
     labels = [''bug'' \<mapsto> bug_label], prLabels = [''acme/widgets'' \<mapsto> [5 \<mapsto> {''bug''}]],
     issueLabels = [''acme/widgets'' \<mapsto> [3 \<mapsto> {''bug''}]]\<rparr>"
  by (simp add: labelled_def stocked_state Cache_AddPullRequestLabel_def
      Cache_AddIssueLabel_def Let_def)

section \<open>The store rejects duplicates and orphans (C6)\<close>

text \<open>
  Claim C6. In every state of the store: adding a repository whose full name
  (\<open>Owner/Name\<close>) is already a key fails with the error "repository ... already exists",
  and adding a pull request or an issue whose repository is not tracked fails with the
  error "repository ... not found"; in all three cases the store after the call is the
  store before it.
\<close>

theorem C6_add_rejects_duplicate_and_orphan:
  "(repositories c (repo_Owner repo @ ''/'' @ repo_Name repo) \<noteq> None \<longrightarrow>
      Cache_AddRepository c repo =
        (Some (Err (''repository '' @ repo_Owner repo @ ''/'' @ repo_Name repo
                     @ '' already exists'')), c))
   \<and> (repositories c (pr_RepositoryFullName pr) = None \<longrightarrow>
      Cache_AddPullRequest c pr =
        (Some (Err (''repository '' @ pr_RepositoryFullName pr @ '' not found'')), c))
   \<and> (repositories c (issue_RepositoryFullName issue) = None \<longrightarrow>
      Cache_AddIssue c issue =
        (Some (Err (''repository '' @ issue_RepositoryFullName issue @ '' not found'')), c))"
  by (simp add: Cache_AddRepository_def Cache_AddPullRequest_def Cache_AddIssue_def)

theorem C6_witness:
  "repositories (cache tracked) ''acme/widgets'' \<noteq> None
   \<and> repositories (cache tracked) ''ghost/none'' = None
   \<and> Cache_AddRepository (cache tracked) widgets_record =
        (Some (Err ''repository acme/widgets already exists''), cache tracked)
   \<and> Cache_AddPullRequest (cache tracked) (pr5\<lparr>pr_RepositoryFullName := ''ghost/none''\<rparr>) =
        (Some (Err ''repository ghost/none not found''), cache tracked)
   \<and> Cache_AddIssue (cache tracked) (issue3\<lparr>issue_RepositoryFullName := ''ghost/none''\<rparr>) =
        (Some (Err ''repository ghost/none not found''), cache tracked)"
proof -
  have dup: "repositories (cache tracked)
      (repo_Owner widgets_record @ ''/'' @ repo_Name widgets_record) \<noteq> None"
    by (simp add: tracked_state widgets_record_def)
  have orphan: "repositories (cache tracked) ''ghost/none'' = None"
    by (simp add: tracked_state)
  show ?thesis
    using dup orphan
      C6_add_rejects_duplicate_and_orphan [of "cache tracked" widgets_record
        "pr5\<lparr>pr_RepositoryFullName := ''ghost/none''\<rparr>"
        "issue3\<lparr>issue_RepositoryFullName := ''ghost/none''\<rparr>"]
    by (simp add: widgets_record_def)
qed

section \<open>Attaching a label twice (C7)\<close>

text \<open>
  Claim C7. For every tracked repository, pull request of it and existing label,
  \<^verbatim>\<open>AddPullRequestLabel\<close> succeeds, and calling it again with the same arguments succeeds
  too and leaves the store exactly as the first call left it. The names attached to the
  pull request form a set, which then holds the label (once, as a set does) and, apart
  from it, the names it held before.
\<close>

theorem C7_AddPullRequestLabel_idempotent:
  assumes "repositories c r \<noteq> None" and "pullRequests c r = Some prs" and "prs n \<noteq> None"
    and "labels c l \<noteq> None"
  shows "\<exists>c1 byPR names.
           Cache_AddPullRequestLabel c r n l = (None, c1)
           \<and> Cache_AddPullRequestLabel c1 r n l = (None, c1)
           \<and> prLabels c1 r = Some byPR \<and> byPR n = Some names \<and> l \<in> names
           \<and> names - {l} = (case prLabels c r of None \<Rightarrow> {} | Some m \<Rightarrow>
                                 (case m n of None \<Rightarrow> {} | Some old \<Rightarrow> old)) - {l}"
  using assms
  by (auto simp add: Cache_AddPullRequestLabel_def Let_def split: option.splits)

theorem C7_witness:
  "Cache_AddPullRequestLabel stocked ''acme/widgets'' 5 ''bug'' =
     (None, stocked\<lparr>prLabels := [''acme/widgets'' \<mapsto> [5 \<mapsto> {''bug''}]]\<rparr>)
   \<and> Cache_AddPullRequestLabel
        (stocked\<lparr>prLabels := [''acme/widgets'' \<mapsto> [5 \<mapsto> {''bug''}]]\<rparr>)
        ''acme/widgets'' 5 ''bug'' =
     (None, stocked\<lparr>prLabels := [''acme/widgets'' \<mapsto> [5 \<mapsto> {''bug''}]]\<rparr>)"
proof -
  have h1: "repositories stocked ''acme/widgets'' \<noteq> None"
    and h2: "pullRequests stocked ''acme/widgets'' = Some [5 \<mapsto> pr5]"
    and h3: "[5 \<mapsto> pr5] (5::int) \<noteq> None"
    and h4: "labels stocked ''bug'' \<noteq> None"
    by (simp_all add: stocked_state)
  have once: "Cache_AddPullRequestLabel stocked ''acme/widgets'' 5 ''bug'' =
     (None, stocked\<lparr>prLabels := [''acme/widgets'' \<mapsto> [5 \<mapsto> {''bug''}]]\<rparr>)"
    by (simp add: stocked_state Cache_AddPullRequestLabel_def Let_def)
  from C7_AddPullRequestLabel_idempotent [OF h1 h2 h3 h4] once
  show ?thesis by auto
qed

section \<open>Deleting a repository (C8)\<close>

lemma two_repos_state:
  "two_repos = \<lparr>repositories = [''acme/widgets'' \<mapsto> widgets_record, ''acme/gadgets'' \<mapsto> gadgets_record],
     pullRequests = [''acme/widgets'' \<mapsto> [5 \<mapsto> pr5], ''acme/gadgets'' \<mapsto> [7 \<mapsto> pr7]],
     issues = [''acme/widgets'' \<mapsto> [3 \<mapsto> issue3], ''acme/gadgets'' \<mapsto> Map.empty],
     labels = [''bug'' \<mapsto> bug_label],
     prLabels = [''acme/widgets'' \<mapsto> [5 \<mapsto> {''bug''}], ''acme/gadgets'' \<mapsto> [7 \<mapsto> {''bug''}]],
     issueLabels = [''acme/widgets'' \<mapsto> [3 \<mapsto> {''bug''}], ''acme/gadgets'' \<mapsto> Map.empty]\<rparr>"
  by (simp add: two_repos_def labelled_state Cache_AddRepository_def Cache_AddPullRequest_def
      Cache_AddPullRequestLabel_def Let_def gadgets_record_def widgets_record_def pr7_def pr5_def)

lemma untracked_queries_fail:
  assumes "repositories c fn = None"
  shows "Cache_GetPullRequest c fn n = Inl (Err (''repository '' @ fn @ '' not found''))"
    and "Cache_GetIssue c fn n = Inl (Err (''repository '' @ fn @ '' not found''))"
    and "Cache_ListPullRequests c fn ks page perPage
           = Inl (Err (''repository '' @ fn @ '' not found''))"
    and "Cache_ListIssues c fn ks page perPage
           = Inl (Err (''repository '' @ fn @ '' not found''))"
    and "Cache_ListPullRequestLabels c fn n ls
           = Inl (Err (''repository '' @ fn @ '' not found''))"
    and "Cache_ListIssueLabels c fn n ls
           = Inl (Err (''repository '' @ fn @ '' not found''))"
  using assms
  by (simp_all add: Cache_GetPullRequest_def Cache_GetIssue_def Cache_ListPullRequests_def
      Cache_ListIssues_def Cache_ListPullRequestLabels_def Cache_ListIssueLabels_def)

lemma untracked_get_fails:
  assumes "repositories c (owner @ ''/'' @ name) = None"
  shows "Cache_GetRepository c owner name
           = Inl (Err (''repository '' @ (owner @ ''/'' @ name) @ '' not found''))"
  using assms by (simp add: Cache_GetRepository_def Let_def)

lemma DeleteRepository_tracked:
  assumes "repositories c (owner @ ''/'' @ name) \<noteq> None"
  shows "Cache_DeleteRepository c owner name =
    (None, c\<lparr>repositories := (repositories c)(owner @ ''/'' @ name := None),
              pullRequests := (pullRequests c)(owner @ ''/'' @ name := None),
              issues := (issues c)(owner @ ''/'' @ name := None),
              prLabels := (prLabels c)(owner @ ''/'' @ name := None),
              issueLabels := (issueLabels c)(owner @ ''/'' @ name := None)\<rparr>)"
  using assms by (simp add: Cache_DeleteRepository_def Let_def)

text \<open>
  Claim C8. For every tracked repository \<open>owner/name\<close>, \<^verbatim>\<open>DeleteRepository\<close> succeeds and
  removes the repository together with its pull requests, issues and label associations:
  afterwards every query for that repository (the repository itself, a pull request or
  an issue by number, the listings, the labels of an item) answers "repository ... not
  found". The records, pull requests, issues and label associations of every other
  repository, and all label definitions, are as before.
\<close>

theorem C8_DeleteRepository_cascade:
  fixes c :: Cache and owner name :: string
  defines "fn \<equiv> owner @ ''/'' @ name"
  defines "c' \<equiv> snd (Cache_DeleteRepository c owner name)"
  assumes "repositories c fn \<noteq> None"
  shows "fst (Cache_DeleteRepository c owner name) = None
    \<and> repositories c' fn = None \<and> pullRequests c' fn = None \<and> issues c' fn = None
    \<and> prLabels c' fn = None \<and> issueLabels c' fn = None
    \<and> Cache_GetRepository c' owner name = Inl (Err (''repository '' @ fn @ '' not found''))
    \<and> (\<forall>n. Cache_GetPullRequest c' fn n = Inl (Err (''repository '' @ fn @ '' not found'')))
    \<and> (\<forall>n. Cache_GetIssue c' fn n = Inl (Err (''repository '' @ fn @ '' not found'')))
    \<and> (\<forall>ks page perPage. Cache_ListPullRequests c' fn ks page perPage
          = Inl (Err (''repository '' @ fn @ '' not found'')))
    \<and> (\<forall>ks page perPage. Cache_ListIssues c' fn ks page perPage
          = Inl (Err (''repository '' @ fn @ '' not found'')))
    \<and> (\<forall>n ks. Cache_ListPullRequestLabels c' fn n ks
          = Inl (Err (''repository '' @ fn @ '' not found'')))
    \<and> (\<forall>n ks. Cache_ListIssueLabels c' fn n ks
          = Inl (Err (''repository '' @ fn @ '' not found'')))
    \<and> (\<forall>k. k \<noteq> fn \<longrightarrow>
          repositories c' k = repositories c k \<and> pullRequests c' k = pullRequests c k
          \<and> issues c' k = issues c k \<and> prLabels c' k = prLabels c k
          \<and> issueLabels c' k = issueLabels c k)
    \<and> labels c' = labels c"
proof -
  have del: "Cache_DeleteRepository c owner name =
      (None, c\<lparr>repositories := (repositories c)(fn := None),
              pullRequests := (pullRequests c)(fn := None),
              issues := (issues c)(fn := None),
              prLabels := (prLabels c)(fn := None),
              issueLabels := (issueLabels c)(fn := None)\<rparr>)"
    using assms(3) unfolding fn_def by (rule DeleteRepository_tracked)
  have gone: "repositories c' fn = None" "pullRequests c' fn = None" "issues c' fn = None"
    "prLabels c' fn = None" "issueLabels c' fn = None"
    by (simp_all add: c'_def del)
  have frame: "\<forall>k. k \<noteq> fn \<longrightarrow>
          repositories c' k = repositories c k \<and> pullRequests c' k = pullRequests c k
          \<and> issues c' k = issues c k \<and> prLabels c' k = prLabels c k
          \<and> issueLabels c' k = issueLabels c k"
    by (simp add: c'_def del)
  have lab: "labels c' = labels c" by (simp add: c'_def del)
  have get: "Cache_GetRepository c' owner name = Inl (Err (''repository '' @ fn @ '' not found''))"
    using untracked_get_fails [of c' owner name] gone(1) by (simp only: fn_def)
  have ok: "fst (Cache_DeleteRepository c owner name) = None" by (simp add: del)
  note facts = ok gone frame lab get untracked_queries_fail [OF gone(1)]
  show ?thesis
    using facts by simp
qed

theorem C8_witness:
  "repositories two_repos (''acme'' @ ''/'' @ ''widgets'') \<noteq> None
   \<and> Cache_DeleteRepository two_repos ''acme'' ''widgets'' =
       (None, \<lparr>repositories = [''acme/gadgets'' \<mapsto> gadgets_record],
          pullRequests = [''acme/gadgets'' \<mapsto> [7 \<mapsto> pr7]],
          issues = [''acme/gadgets'' \<mapsto> Map.empty],
          labels = [''bug'' \<mapsto> bug_label],
          prLabels = [''acme/gadgets'' \<mapsto> [7 \<mapsto> {''bug''}]],
          issueLabels = [''acme/gadgets'' \<mapsto> Map.empty]\<rparr>)
   \<and> Cache_GetPullRequest (snd (Cache_DeleteRepository two_repos ''acme'' ''widgets''))
        (''acme'' @ ''/'' @ ''widgets'') 5
       = Inl (Err (''repository '' @ (''acme'' @ ''/'' @ ''widgets'') @ '' not found''))
   \<and> repositories (snd (Cache_DeleteRepository two_repos ''acme'' ''widgets'')) ''acme/gadgets''
       = repositories two_repos ''acme/gadgets''"
proof -
  have h: "repositories two_repos (''acme'' @ ''/'' @ ''widgets'') \<noteq> None"
    by (simp add: two_repos_state)
  have ne: "''acme/gadgets'' \<noteq> ''acme'' @ ''/'' @ ''widgets''" by simp
  have ev: "Cache_DeleteRepository two_repos ''acme'' ''widgets'' =
       (None, \<lparr>repositories = [''acme/gadgets'' \<mapsto> gadgets_record],
          pullRequests = [''acme/gadgets'' \<mapsto> [7 \<mapsto> pr7]],
          issues = [''acme/gadgets'' \<mapsto> Map.empty],
          labels = [''bug'' \<mapsto> bug_label],
          prLabels = [''acme/gadgets'' \<mapsto> [7 \<mapsto> {''bug''}]],
          issueLabels = [''acme/gadgets'' \<mapsto> Map.empty]\<rparr>)"
    by (simp add: two_repos_state Cache_DeleteRepository_def Let_def fun_upd_twist)
  note inst = C8_DeleteRepository_cascade [OF h]
  have q: "Cache_GetPullRequest (snd (Cache_DeleteRepository two_repos ''acme'' ''widgets''))
        (''acme'' @ ''/'' @ ''widgets'') 5
       = Inl (Err (''repository '' @ (''acme'' @ ''/'' @ ''widgets'') @ '' not found''))"
    using inst by simp
  have fr: "repositories (snd (Cache_DeleteRepository two_repos ''acme'' ''widgets'')) ''acme/gadgets''
       = repositories two_repos ''acme/gadgets''"
    using inst ne by simp
  show ?thesis using h ev q fr by simp
qed

section \<open>Pagination in the store (C9)\<close>

lemma wrap64_id: "- (2 ^ 63) \<le> x \<Longrightarrow> x < 2 ^ 63 \<Longrightarrow> wrap64 x = x"
  by (simp add: wrap64_def)

lemma length_range_values:
  assumes "range_order m ks"
  shows "int (length (range_values m ks)) = len_map m"
proof -
  have "\<forall>k \<in> set ks. m k \<noteq> None" using assms by (auto simp: range_order_def)
  then have "length (List.map_filter m ks) = length ks"
    by (induction ks) (auto simp: List.map_filter_def)
  moreover have "card (dom m) = length ks"
    using assms by (metis distinct_card range_order_def)
  ultimately show ?thesis by (simp add: range_values_def len_map_def)
qed

lemma ListRepositories_total:
  "Cache_ListRepositories c ks page perPage = Inr (xs, t) \<Longrightarrow> t = len_map (repositories c)"
  by (auto simp: Cache_ListRepositories_def Let_def split: if_splits sum.splits)

lemma apply_pagination_in_range:
  assumes "1 \<le> page" and "1 \<le> perPage" and "page * perPage < 2 ^ 63"
    and "int (length xs) = total'"
  shows "apply_pagination xs total' page perPage
     = Inr (take (nat perPage) (drop (nat ((page - 1) * perPage)) xs))"
proof -
  have pp: "0 \<le> (page - 1) * perPage" using assms by simp
  have le: "(page - 1) * perPage + perPage = page * perPage" by (simp add: algebra_simps)
  have lt: "(page - 1) * perPage < 2 ^ 63" using assms le by linarith
  have p63: "page < 2 ^ 63"
  proof -
    have "page * 1 \<le> page * perPage" using assms by (intro mult_left_mono) auto
    then have "page \<le> page * perPage" by simp
    then show ?thesis using assms by linarith
  qed
  have s1: "int_sub page 1 = page - 1"
    unfolding int_sub_def using assms p63 by (intro wrap64_id) auto
  have s2: "int_mul (page - 1) perPage = (page - 1) * perPage"
    unfolding int_mul_def using pp lt by (intro wrap64_id) auto
  have pq: "0 \<le> page * perPage" using pp le assms by linarith
  have s3: "int_add ((page - 1) * perPage) perPage = page * perPage"
  proof -
    have "wrap64 (page * perPage) = page * perPage"
      by (rule wrap64_id) (use pq assms(3) in linarith)+
    then show ?thesis by (simp add: int_add_def le)
  qed
  define start where "start = (page - 1) * perPage"
  have st: "0 \<le> start" "start + perPage = page * perPage"
    using pp le by (simp_all add: start_def)
  show ?thesis
  proof (cases "start \<ge> total'")
    case True
    then have "drop (nat start) xs = []" using assms(4) st by auto
    then show ?thesis
      using True by (simp add: apply_pagination_def s1 s2 Let_def start_def)
  next
    case False
    have "go_slice xs start (if page * perPage > total' then total' else page * perPage)
         = Inr (take (nat perPage) (drop (nat start) xs))"
    proof (cases "page * perPage > total'")
      case True
      have "nat (total' - start) = length xs - nat start"
        using assms(4) st by (simp add: nat_diff_distrib)
      moreover have "length xs - nat start \<le> nat perPage"
        using True st assms(4) by linarith
      ultimately show ?thesis
        using True False st assms(4) by (simp add: go_slice_def)
    next
      case F2: False
      have e: "nat (page * perPage - start) = nat perPage" using st by simp
      have b: "start \<le> page * perPage" "page * perPage \<le> int (length xs)"
        using st F2 assms(2,4) by linarith+
      show ?thesis
        using F2 b st(1) by (simp add: go_slice_def e)
    qed
    then show ?thesis
      using False by (simp add: apply_pagination_def s1 s2 s3 Let_def start_def)
  qed
qed

lemma ListRepositories_in_range:
  assumes "range_order (repositories c) ks" and "1 \<le> page" and "1 \<le> perPage"
    and "page * perPage < 2 ^ 63"
  shows "Cache_ListRepositories c ks page perPage
     = Inr (take (nat perPage) (drop (nat ((page - 1) * perPage))
              (range_values (repositories c) ks)), len_map (repositories c))"
proof -
  have len: "int (length (range_values (repositories c) ks)) = len_map (repositories c)"
    using assms(1) by (rule length_range_values)
  show ?thesis
  proof (cases "len_map (repositories c) = 0")
    case True
    then have "range_values (repositories c) ks = []" using len by simp
    then show ?thesis using True by (simp add: Cache_ListRepositories_def)
  next
    case False
    then show ?thesis
      using apply_pagination_in_range [OF assms(2-4) len]
      by (simp add: Cache_ListRepositories_def Let_def)
  qed
qed

text \<open>
  Claim C9 says that \<^verbatim>\<open>ListRepositories\<close> returns for every page and page size. Whenever it
  returns, the count is the number of tracked repositories (\<open>ListRepositories_total\<close>), and
  for pages from 1 on with a page size from 1 on it does return
  (\<open>ListRepositories_in_range\<close>). For page 0 it does not: with one repository tracked,
  \<^verbatim>\<open>ListRepositories(0, 10)\<close> computes the offset \<open>-10\<close>, passes the test
  \<^verbatim>\<open>start >= total\<close> and panics in the slice expression \<^verbatim>\<open>repos[-10:0]\<close>.
\<close>

theorem C9_ListRepositories_page_zero_panics:
  "Cache_ListRepositories (cache tracked) [''acme/widgets''] 0 10
     = Inl (Panic ''runtime error: slice bounds out of range'')"
  by (simp add: tracked_state Cache_ListRepositories_def len_map_def range_values_def
      List.map_filter_def apply_pagination_def int_mul_def int_sub_def int_add_def wrap64_def
      go_slice_def Let_def)

text \<open>
  The slice expression panics in the same way for a page above 0 whose offset overflows:
  page 92233720368547760 with page size 100, which the handler of the HTTP interface
  accepts, gives the offset \<open>-9223372036854775716\<close>.
\<close>

lemma ListRepositories_overflowing_page_panics:
  "Cache_ListRepositories (cache tracked) [''acme/widgets''] 92233720368547760 100
     = Inl (Panic ''runtime error: slice bounds out of range'')"
  by (simp add: tracked_state Cache_ListRepositories_def len_map_def range_values_def
      List.map_filter_def apply_pagination_def int_mul_def int_sub_def int_add_def wrap64_def
      go_slice_def Let_def)

section \<open>Adding a repository that is already tracked (C10)\<close>

lemma Split_no_sep: "sep \<notin> set s \<Longrightarrow> strings_Split s sep = [s]"
  by (induction s) auto

lemma Split_at_first_sep:
  "sep \<notin> set a \<Longrightarrow> strings_Split (a @ sep # b) sep = a # strings_Split b sep"
  by (induction a) auto

lemma Split_owner_name:
  assumes "CHR ''/'' \<notin> set owner" and "CHR ''/'' \<notin> set name"
  shows "strings_Split (owner @ ''/'' @ name) CHR ''/'' = [owner, name]"
  using Split_at_first_sep [OF assms(1), of name] Split_no_sep [OF assms(2)] by simp

text \<open>
  Claim C10. For every full name \<open>owner/name\<close> (owner and name without a slash) that is
  tracked in the store, the service's \<^verbatim>\<open>AddRepository\<close> returns the stored record and no
  error, and the state of the service is the state before the call: the store is not
  written, the log of calls on the external source is not extended, and no background
  sync cycle is dispatched.
\<close>

theorem C10_AddRepository_existing:
  assumes "CHR ''/'' \<notin> set owner" and "CHR ''/'' \<notin> set name"
    and "repositories (cache s) (owner @ ''/'' @ name) = Some repo"
  shows "Service_AddRepository gh now s (owner @ ''/'' @ name) = (Inr repo, s, [])"
proof -
  have get: "Cache_GetRepository (cache s) owner name = Inr repo"
    using assms(3) by (simp add: Cache_GetRepository_def Let_def)
  show ?thesis
    unfolding Service_AddRepository_def Split_owner_name [OF assms(1,2)] by (simp add: get)
qed

theorem C10_witness:
  "CHR ''/'' \<notin> set ''acme'' \<and> CHR ''/'' \<notin> set ''widgets''
   \<and> repositories (cache tracked) (''acme'' @ ''/'' @ ''widgets'') = Some widgets_record
   \<and> Service_AddRepository gh_up 99 tracked (''acme'' @ ''/'' @ ''widgets'')
       = (Inr widgets_record, tracked, [])"
proof -
  have h1: "CHR ''/'' \<notin> set ''acme''" and h2: "CHR ''/'' \<notin> set ''widgets''" by simp_all
  have h3: "repositories (cache tracked) (''acme'' @ ''/'' @ ''widgets'') = Some widgets_record"
    by (simp add: tracked_state)
  from C10_AddRepository_existing [OF h1 h2 h3, of gh_up 99] h1 h2 h3
  show ?thesis by (intro conjI)
qed

section \<open>The status of a failed sync cycle (C1, C2, C3)\<close>

lemma failing_run:
  "syncRepository_body gh_down 50 tracked ''acme'' ''widgets'' =
     (Some (Err ''failed to sync pull requests: failed to list pull requests: upstream failure''),
      tracked\<lparr>syncStatus := [''acme/widgets'' \<mapsto>
          ''error syncing pull requests: failed to list pull requests: upstream failure''],
        ghCalls := [GetRepositoryCall ''acme'' ''widgets'',
                    ListPullRequestsCall ''acme'' ''widgets'' sync_options]\<rparr>)"
  by (simp add: tracked_state syncRepository_body_def Let_def Cache_GetRepository_def
       syncPullRequests_def gh_down_def)

lemma failing_state:
  "failing = \<lparr>cache = \<lparr>repositories = [''acme/widgets'' \<mapsto> widgets_record],
       pullRequests = [''acme/widgets'' \<mapsto> Map.empty],
       issues = [''acme/widgets'' \<mapsto> Map.empty],
       labels = Map.empty, prLabels = [''acme/widgets'' \<mapsto> Map.empty],
       issueLabels = [''acme/widgets'' \<mapsto> Map.empty]\<rparr>,
     syncStatus = [''acme/widgets'' \<mapsto>
        ''error syncing pull requests: failed to list pull requests: upstream failure''],
     startTime = 0,
     ghCalls = [GetRepositoryCall ''acme'' ''widgets'',
                ListPullRequestsCall ''acme'' ''widgets'' sync_options]\<rparr>"
  unfolding failing_def failing_run by (simp add: tracked_state)

lemmas listing_defs = Cache_ListRepositories_def len_map_def range_values_def
  List.map_filter_def apply_pagination_def int_mul_def int_sub_def int_add_def wrap64_def
  go_slice_def Let_def

lemma GetStatus_syncing_is_number_of_entries:
  "fst (Service_GetStatus gh s ro so) = Inr st \<Longrightarrow> st_syncing st = len_map (syncStatus s)"
  by (auto simp add: Service_GetStatus_def Let_def split: sum.splits prod.splits)

text \<open>
  Claim C1 says that a status entry with an error text is counted as errored and not as
  syncing. \<^verbatim>\<open>GetStatus\<close> takes the number of all entries of the status map as the syncing
  count (\<open>GetStatus_syncing_is_number_of_entries\<close>), so it counts such an entry in both.
  The state \<open>failing\<close> is the one a sync cycle for \<open>acme/widgets\<close> is in when its pull
  request listing has failed and the deferred function has not run yet: its only entry is
  an error text, and \<^verbatim>\<open>GetStatus\<close> reports one syncing and one errored repository.
\<close>

theorem C1_error_entry_counted_as_syncing:
  "syncStatus failing = [''acme/widgets'' \<mapsto>
       ''error syncing pull requests: failed to list pull requests: upstream failure'']
   \<and> fst (Service_GetStatus gh_down failing [''acme/widgets''] [''acme/widgets'']) =
       Inr \<lparr>st_total = 1, st_syncing = 1, st_error = 1, st_last_sync = 42, st_limit = 5000,
            st_remaining = 4999, st_reset = 0\<rparr>"
  by (simp add: failing_state Service_GetStatus_def listing_defs strings_HasPrefix_def
      gh_down_def widgets_record_def)

lemma syncRepository_clears_status:
  "syncStatus (snd (syncRepository gh now s owner name)) (owner @ ''/'' @ name) = None"
  by (simp add: syncRepository_def split: prod.splits)

text \<open>
  Claim C2 says that after a failed sync cycle the status entry of the repository still
  holds the error text. The deferred function of \<^verbatim>\<open>syncRepository\<close> deletes the entry on
  every return (\<open>syncRepository_clears_status\<close>), so the error text that the failing
  branch has just written is gone when the cycle completes: for \<open>acme/widgets\<close> with a
  failing pull request listing the cycle returns the error, the status map has no entry
  for the repository, and the status reports no errored repository.
\<close>

theorem C2_error_status_deleted_on_return:
  "syncRepository gh_down 50 tracked ''acme'' ''widgets'' =
     (Some (Err ''failed to sync pull requests: failed to list pull requests: upstream failure''),
      tracked\<lparr>ghCalls := [GetRepositoryCall ''acme'' ''widgets'',
                           ListPullRequestsCall ''acme'' ''widgets'' sync_options]\<rparr>)
   \<and> syncStatus (snd (syncRepository gh_down 50 tracked ''acme'' ''widgets'')) ''acme/widgets''
       = None
   \<and> fst (Service_GetStatus gh_down (snd (syncRepository gh_down 50 tracked ''acme'' ''widgets''))
          [''acme/widgets''] []) =
       Inr \<lparr>st_total = 1, st_syncing = 0, st_error = 0, st_last_sync = 42, st_limit = 5000,
            st_remaining = 4999, st_reset = 0\<rparr>"
proof -
  have run: "syncRepository gh_down 50 tracked ''acme'' ''widgets'' =
     (Some (Err ''failed to sync pull requests: failed to list pull requests: upstream failure''),
      tracked\<lparr>ghCalls := [GetRepositoryCall ''acme'' ''widgets'',
                           ListPullRequestsCall ''acme'' ''widgets'' sync_options]\<rparr>)"
    unfolding syncRepository_def failing_run by (simp add: tracked_state)
  show ?thesis
    unfolding run
    by (simp add: tracked_state Service_GetStatus_def listing_defs strings_HasPrefix_def
        gh_down_def widgets_record_def)
qed






section \<open>When \<open>last_synced_at\<close> changes (C4)\<close>

lemma store_writes_keep_repositories:
  "repositories (snd (Cache_AddPullRequest c pr)) = repositories c"
  "repositories (snd (Cache_UpdatePullRequest c pr)) = repositories c"
  "repositories (snd (Cache_AddIssue c issue)) = repositories c"
  "repositories (snd (Cache_UpdateIssue c issue)) = repositories c"
  "repositories (snd (Cache_AddLabel c label)) = repositories c"
  "repositories (snd (Cache_AddPullRequestLabel c rfn n l)) = repositories c"
  "repositories (snd (Cache_AddIssueLabel c rfn n l)) = repositories c"
  by (simp_all add: Cache_AddPullRequest_def Cache_UpdatePullRequest_def Cache_AddIssue_def
      Cache_UpdateIssue_def Cache_AddLabel_def Cache_AddPullRequestLabel_def
      Cache_AddIssueLabel_def Let_def split: option.splits)

lemma store_write_results_keep_repositories:
  "Cache_AddPullRequest c pr = (e, c1) \<Longrightarrow> repositories c1 = repositories c"
  "Cache_UpdatePullRequest c pr = (e, c1) \<Longrightarrow> repositories c1 = repositories c"
  "Cache_AddIssue c issue = (e, c1) \<Longrightarrow> repositories c1 = repositories c"
  "Cache_UpdateIssue c issue = (e, c1) \<Longrightarrow> repositories c1 = repositories c"
  "Cache_AddLabel c label = (e, c1) \<Longrightarrow> repositories c1 = repositories c"
  using store_writes_keep_repositories(1) [of c pr] store_writes_keep_repositories(2) [of c pr]
    store_writes_keep_repositories(3) [of c issue] store_writes_keep_repositories(4) [of c issue]
    store_writes_keep_repositories(5) [of c label]
  by simp_all

lemma sync_pr_labels_repositories:
  "repositories (sync_pr_labels c rfn n ls) = repositories c"
  by (induction ls arbitrary: c)
    (auto simp add: Let_def store_writes_keep_repositories
      split: sum.splits prod.splits option.splits
      dest: store_write_results_keep_repositories)

lemma sync_issue_labels_repositories:
  "repositories (sync_issue_labels c rfn n ls) = repositories c"
  by (induction ls arbitrary: c)
    (auto simp add: Let_def store_writes_keep_repositories
      split: sum.splits prod.splits option.splits
      dest: store_write_results_keep_repositories)

lemma sync_pr_items_repositories:
  "repositories (sync_pr_items c repo prs) = repositories c"
  by (induction prs arbitrary: c)
    (auto simp add: Let_def sync_pr_labels_repositories
      split: sum.splits prod.splits option.splits
      dest: store_write_results_keep_repositories)

lemma sync_issue_items_repositories:
  "repositories (sync_issue_items c repo xs) = repositories c"
  by (induction xs arbitrary: c)
    (auto simp add: Let_def sync_issue_labels_repositories
      split: sum.splits prod.splits option.splits
      dest: store_write_results_keep_repositories)

lemma syncPullRequests_repositories:
  "repositories (cache (snd (syncPullRequests gh s owner name))) = repositories (cache s)"
  by (simp add: syncPullRequests_def Let_def sync_pr_items_repositories split: sum.splits)

lemma syncIssues_repositories:
  "repositories (cache (snd (syncIssues gh s owner name))) = repositories (cache s)"
  by (simp add: syncIssues_def Let_def sync_issue_items_repositories split: sum.splits)


lemma syncPullRequests_success:
  "syncPullRequests gh s owner name = (None, s1) \<Longrightarrow>
     \<exists>prs. gh_ListPullRequests gh owner name sync_options = Inr prs"
  by (auto simp add: syncPullRequests_def Let_def split: sum.splits)

lemma syncIssues_success:
  "syncIssues gh s owner name = (None, s1) \<Longrightarrow>
     \<exists>xs. gh_ListIssues gh owner name sync_options = Inr xs"
  by (auto simp add: syncIssues_def Let_def split: sum.splits)

lemma syncRepository_repositories:
  fixes gh :: ghClient and now :: time and s :: Service and owner name :: string
  defines "fn \<equiv> owner @ ''/'' @ name"
  defines "res \<equiv> syncRepository gh now s owner name"
  assumes wf: "wf_cache (cache s)"
  shows "repositories (cache (snd res)) = repositories (cache s)
       \<or> (\<exists>r0. repositories (cache s) fn = Some r0 \<and> fst res = None
            \<and> repositories (cache (snd res))
                = (repositories (cache s))(fn \<mapsto> r0\<lparr>repo_LastSyncedAt := now\<rparr>)
            \<and> (\<exists>prs. gh_ListPullRequests gh owner name sync_options = Inr prs)
            \<and> (\<exists>xs. gh_ListIssues gh owner name sync_options = Inr xs))"
proof -
  define s0 where "s0 = s\<lparr>syncStatus := (syncStatus s)(fn \<mapsto> ''syncing'')\<rparr>"
  have c0: "cache s0 = cache s" by (simp add: s0_def)
  have res: "res = (case syncRepository_body gh now s owner name of
        (err, sb) \<Rightarrow> (err, sb\<lparr>syncStatus := (syncStatus sb)(fn := None)\<rparr>))"
    by (simp add: res_def syncRepository_def fn_def)
  show ?thesis
  proof (cases "repositories (cache s) fn")
    case None
    then have "Cache_GetRepository (cache s0) owner name
        = Inl (Err (''repository '' @ fn @ '' not found''))"
      by (simp add: Cache_GetRepository_def Let_def c0 fn_def)
    then have "cache (snd res) = cache s"
      unfolding res syncRepository_body_def Let_def fn_def [symmetric] s0_def [symmetric]
      by (simp add: c0)
    then show ?thesis by simp
  next
    case (Some r0)
    then have get: "Cache_GetRepository (cache s0) owner name = Inr r0"
      by (simp add: Cache_GetRepository_def Let_def c0 fn_def)
    obtain r1 s1 where pr: "syncPullRequests gh s0 owner name = (r1, s1)"
      by (cases "syncPullRequests gh s0 owner name")
    have rep1: "repositories (cache s1) = repositories (cache s)"
      using syncPullRequests_repositories [of gh s0 owner name] by (simp add: pr c0)
    show ?thesis
    proof (cases r1)
      case (Some e1)
      have "repositories (cache (snd res)) = repositories (cache s)"
        unfolding res syncRepository_body_def Let_def fn_def [symmetric] s0_def [symmetric]
        by (simp add: get pr Some rep1)
      then show ?thesis by simp
    next
      case None
      obtain prs where prs: "gh_ListPullRequests gh owner name sync_options = Inr prs"
        using syncPullRequests_success pr None by blast
      obtain r2 s2 where iss: "syncIssues gh s1 owner name = (r2, s2)"
        by (cases "syncIssues gh s1 owner name")
      have rep2: "repositories (cache s2) = repositories (cache s)"
        using syncIssues_repositories [of gh s1 owner name] by (simp add: iss rep1)
      show ?thesis
      proof (cases r2)
        case (Some e2)
        have "repositories (cache (snd res)) = repositories (cache s)"
          unfolding res syncRepository_body_def Let_def fn_def [symmetric] s0_def [symmetric]
          by (simp add: get pr None iss Some rep2)
        then show ?thesis by simp
      next
        case N2: None
        obtain xs where xs: "gh_ListIssues gh owner name sync_options = Inr xs"
          using syncIssues_success iss N2 by blast
        define repo' where "repo' = r0\<lparr>repo_LastSyncedAt := now\<rparr>"
        define c2 where "c2 = (cache s2)\<lparr>repositories := (repositories (cache s2))(fn \<mapsto> repo')\<rparr>"
        have key: "repo_Owner repo' @ ''/'' @ repo_Name repo' = fn"
          using wf \<open>repositories (cache s) fn = Some r0\<close>
          by (simp add: wf_cache_def repo'_def)
        have upd: "Cache_UpdateRepository c2 repo' = (None, c2)"
          unfolding Cache_UpdateRepository_def key Let_def by (simp add: c2_def)
        have body: "syncRepository_body gh now s owner name = (None, s2\<lparr>cache := c2\<rparr>)"
          unfolding syncRepository_body_def Let_def fn_def [symmetric] s0_def [symmetric]
          by (simp add: get pr None iss N2 repo'_def [symmetric] c2_def [symmetric] upd)
        have "fst res = None"
          "repositories (cache (snd res)) = (repositories (cache s))(fn \<mapsto> repo')"
          unfolding res body by (simp_all add: c2_def rep2)
        then show ?thesis
          using \<open>repositories (cache s) fn = Some r0\<close> prs xs by (simp add: repo'_def)
      qed
    qed
  qed
qed


lemma wf_NewCache: "wf_cache NewCache"
  by (simp add: wf_cache_def NewCache_def)

lemma Cache_AddRepository_repositories:
  "repositories (snd (Cache_AddRepository c repo)) =
     (if repositories c (repo_Owner repo @ ''/'' @ repo_Name repo) \<noteq> None then repositories c
      else (repositories c)(repo_Owner repo @ ''/'' @ repo_Name repo \<mapsto> repo))"
  by (simp add: Cache_AddRepository_def Let_def)

lemma Service_AddRepository_repositories:
  fixes gh :: ghClient and now :: time and s :: Service and fullName :: string
  defines "s' \<equiv> fst (snd (Service_AddRepository gh now s fullName))"
  shows "repositories (cache s') = repositories (cache s)
       \<or> (\<exists>repo. repositories (cache s) (repo_Owner repo @ ''/'' @ repo_Name repo) = None
             \<and> repo_LastSyncedAt repo = now
             \<and> repositories (cache s')
                 = (repositories (cache s))(repo_Owner repo @ ''/'' @ repo_Name repo \<mapsto> repo))"
proof (cases "strings_Split fullName CHR ''/''")
  case Nil
  then show ?thesis by (simp add: s'_def Service_AddRepository_def)
next
  case (Cons owner rest)
  show ?thesis
  proof (cases rest)
    case Nil
    then show ?thesis using Cons by (simp add: s'_def Service_AddRepository_def)
  next
    case C2: (Cons name rest2)
    show ?thesis
    proof (cases rest2)
      case (Cons a b)
      then show ?thesis using \<open>strings_Split fullName CHR ''/'' = owner # rest\<close> C2
        by (simp add: s'_def Service_AddRepository_def)
    next
      case Nil
      have sp: "strings_Split fullName CHR ''/'' = [owner, name]"
        using \<open>strings_Split fullName CHR ''/'' = owner # rest\<close> C2 Nil by simp
      show ?thesis
      proof (cases "Cache_GetRepository (cache s) owner name")
        case (Inr existing)
        then show ?thesis by (simp add: s'_def Service_AddRepository_def sp)
      next
        case (Inl e)
        show ?thesis
        proof (cases "gh_GetRepository gh owner name")
          case gl: (Inl msg)
          then show ?thesis by (simp add: s'_def Service_AddRepository_def sp Inl Let_def)
        next
          case gr: (Inr ghRepo)
          define repo where "repo = \<lparr>repo_Owner = user_Login (ghrepo_Owner ghRepo),
                                repo_Name = ghrepo_Name ghRepo,
                                repo_FullName = ghrepo_FullName ghRepo,
                                repo_Description = ghrepo_Description ghRepo,
                                repo_URL = ghrepo_URL ghRepo,
                                repo_HTMLURL = ghrepo_HTMLURL ghRepo,
                                repo_IsPrivate = ghrepo_Private ghRepo,
                                repo_LastSyncedAt = now,
                                repo_CreatedAt = ghrepo_CreatedAt ghRepo,
                                repo_UpdatedAt = ghrepo_UpdatedAt ghRepo\<rparr>"
          have lsa: "repo_LastSyncedAt repo = now" by (simp add: repo_def)
          obtain e1 c1 where add: "Cache_AddRepository (cache s) repo = (e1, c1)"
            by (cases "Cache_AddRepository (cache s) repo")
          have c1: "repositories c1 =
              (if repositories (cache s) (repo_Owner repo @ ''/'' @ repo_Name repo) \<noteq> None
               then repositories (cache s)
               else (repositories (cache s))(repo_Owner repo @ ''/'' @ repo_Name repo \<mapsto> repo))"
            using Cache_AddRepository_repositories [of "cache s" repo] by (simp add: add)
          have "cache s' = c1"
            unfolding s'_def Service_AddRepository_def sp
            by (cases e1) (simp_all add: Inl gr Let_def repo_def [symmetric] add)
          then show ?thesis using c1 lsa by auto
        qed
      qed
    qed
  qed
qed


lemma Service_AddRepository_repositories_key:
  fixes gh :: ghClient and now :: time and s :: Service and fullName :: string
  defines "s' \<equiv> fst (snd (Service_AddRepository gh now s fullName))"
  shows "repositories (cache s') = repositories (cache s)
       \<or> (\<exists>K repo. repositories (cache s) K = None \<and> repo_LastSyncedAt repo = now
             \<and> K = repo_Owner repo @ ''/'' @ repo_Name repo
             \<and> repositories (cache s') = (repositories (cache s))(K \<mapsto> repo))"
  using Service_AddRepository_repositories [of gh now s fullName]
  unfolding s'_def by (elim disjE exE conjE) (rule disjI1, assumption, rule disjI2, fast)

lemma wf_update: "wf_cache c \<Longrightarrow> k = repo_Owner r @ ''/'' @ repo_Name r
    \<Longrightarrow> repositories c' = (repositories c)(k \<mapsto> r) \<Longrightarrow> wf_cache c'"
  by (simp add: wf_cache_def)

lemma wf_same: "wf_cache c \<Longrightarrow> repositories c' = repositories c \<Longrightarrow> wf_cache c'"
  by (simp add: wf_cache_def)

lemma wf_Service_AddRepository:
  assumes "wf_cache (cache s)"
  shows "wf_cache (cache (fst (snd (Service_AddRepository gh now s fullName))))"
  using Service_AddRepository_repositories_key [of gh now s fullName]
proof (elim disjE exE conjE)
  assume "repositories (cache (fst (snd (Service_AddRepository gh now s fullName))))
      = repositories (cache s)"
  then show ?thesis by (rule wf_same [OF assms])
next
  fix K repo
  assume "K = repo_Owner repo @ ''/'' @ repo_Name repo"
    and "repositories (cache (fst (snd (Service_AddRepository gh now s fullName))))
      = (repositories (cache s))(K \<mapsto> repo)"
  then show ?thesis by (rule wf_update [OF assms])
qed

lemma Service_DeleteRepository_repositories:
  "repositories (cache (snd (Service_DeleteRepository s owner name)))
     = (repositories (cache s))(owner @ ''/'' @ name := None)"
  by (simp add: Service_DeleteRepository_def Cache_DeleteRepository_def Let_def fun_upd_idem)

lemma wf_Service_DeleteRepository:
  assumes "wf_cache (cache s)"
  shows "wf_cache (cache (snd (Service_DeleteRepository s owner name)))"
  using assms unfolding wf_cache_def Service_DeleteRepository_repositories
  by (simp split: if_splits)

lemma wf_syncRepository:
  assumes "wf_cache (cache s)"
  shows "wf_cache (cache (snd (syncRepository gh now s owner name)))"
proof -
  from syncRepository_repositories [OF assms, of gh now owner name] show ?thesis
  proof (elim disjE exE conjE)
    assume "repositories (cache (snd (syncRepository gh now s owner name))) = repositories (cache s)"
    then show ?thesis by (rule wf_same [OF assms])
  next
    fix r0
    assume r0: "repositories (cache s) (owner @ ''/'' @ name) = Some r0"
      and upd: "repositories (cache (snd (syncRepository gh now s owner name)))
                = (repositories (cache s))(owner @ ''/'' @ name \<mapsto> r0\<lparr>repo_LastSyncedAt := now\<rparr>)"
    have "owner @ ''/'' @ name = repo_Owner r0 @ ''/'' @ repo_Name r0"
      using assms r0 unfolding wf_cache_def by blast
    then have key: "owner @ ''/'' @ name = repo_Owner (r0\<lparr>repo_LastSyncedAt := now\<rparr>) @ ''/''
            @ repo_Name (r0\<lparr>repo_LastSyncedAt := now\<rparr>)"
      by simp
    show ?thesis by (rule wf_update [OF assms key upd])
  qed
qed

lemma Service_GetStatus_cache: "cache (snd (Service_GetStatus gh s ro so)) = cache s"
  by (simp add: Service_GetStatus_def Let_def split: sum.splits prod.splits)

lemma wf_tracked: "wf_cache (cache tracked)"
  unfolding tracked_def by (intro wf_Service_AddRepository) (simp add: NewService_def wf_NewCache)

text \<open>
  Claim C4 says that \<open>last_synced_at\<close> is advanced only as the last step of a fully
  successful sync cycle and that no other operation, \<^verbatim>\<open>AddRepository\<close> included, sets it.
  \<^verbatim>\<open>AddRepository\<close> does set it: the record it stores carries the time of the call
  (\<^verbatim>\<open>LastSyncedAt: time.Now(), // Set initial sync time\<close>). On a new service,
  \<^verbatim>\<open>AddRepository("acme/widgets")\<close> at time 42 stores a record whose \<open>last_synced_at\<close> is
  42, before any sync cycle has run.
\<close>

theorem C4_counterexample:
  "repositories (cache (NewService 0)) ''acme/widgets'' = None
   \<and> map_option repo_LastSyncedAt
        (repositories (cache (fst (snd (Service_AddRepository gh_down 42 (NewService 0)
           ''acme/widgets'')))) ''acme/widgets'') = Some 42"
  unfolding tracked_def [symmetric]
  by (simp add: tracked_state widgets_record_def NewService_def NewCache_def)

text \<open>
  Claim C4, amended. \<^verbatim>\<open>AddRepository\<close> sets \<open>last_synced_at\<close> of the record it creates to the
  time of the call; after that the stored value changes only as the last step of a sync
  cycle whose pull request and issue stages both succeeded. In a well-formed store, for
  every tracked repository \<open>k\<close> with record \<open>r\<close>: \<^verbatim>\<open>AddRepository\<close> leaves the record as it
  is, and every record it adds under a new key has \<open>last_synced_at = now\<close>;
  \<^verbatim>\<open>DeleteRepository\<close> removes the record or leaves it as it is; \<^verbatim>\<open>GetStatus\<close> leaves the
  store as it is; and after a sync cycle the record is either the same, or the cycle was
  for \<open>k\<close>, returned no error, both listings of the external source succeeded, and the
  record is \<open>r\<close> with \<open>last_synced_at = now\<close>. (The other operations of the service return
  no new state: they read the store or dispatch sync cycles.)
\<close>

theorem C4_last_synced_at_set_by_add_and_by_successful_cycle:
  assumes "wf_cache (cache s)" and "repositories (cache s) k = Some r"
  shows "repositories (cache (fst (snd (Service_AddRepository gh now s fullName)))) k = Some r
    \<and> (\<forall>k' r'. repositories (cache s) k' = None \<longrightarrow>
          repositories (cache (fst (snd (Service_AddRepository gh now s fullName)))) k' = Some r'
          \<longrightarrow> repo_LastSyncedAt r' = now)
    \<and> repositories (cache (snd (Service_DeleteRepository s owner name))) k
        = (if k = owner @ ''/'' @ name then None else Some r)
    \<and> cache (snd (Service_GetStatus gh s ro so)) = cache s
    \<and> (repositories (cache (snd (syncRepository gh now s owner name))) k = Some r
        \<or> (k = owner @ ''/'' @ name
            \<and> fst (syncRepository gh now s owner name) = None
            \<and> repositories (cache (snd (syncRepository gh now s owner name))) k
                = Some (r\<lparr>repo_LastSyncedAt := now\<rparr>)
            \<and> (\<exists>prs. gh_ListPullRequests gh owner name sync_options = Inr prs)
            \<and> (\<exists>xs. gh_ListIssues gh owner name sync_options = Inr xs)))"
proof -
  define s1 where "s1 = fst (snd (Service_AddRepository gh now s fullName))"
  define fn where "fn = owner @ ''/'' @ name"
  define res where "res = syncRepository gh now s owner name"
  have add: "repositories (cache s1) k = Some r
    \<and> (\<forall>k' r'. repositories (cache s) k' = None \<longrightarrow>
          repositories (cache s1) k' = Some r' \<longrightarrow> repo_LastSyncedAt r' = now)"
    using Service_AddRepository_repositories_key [of gh now s fullName]
    unfolding s1_def [symmetric]
  proof (elim disjE exE conjE)
    assume "repositories (cache s1) = repositories (cache s)"
    then show ?thesis using assms(2) by simp
  next
    fix K repo
    assume n: "repositories (cache s) K = None" and l: "repo_LastSyncedAt repo = now"
      and u: "repositories (cache s1) = (repositories (cache s))(K \<mapsto> repo)"
    have "k \<noteq> K" using n assms(2) by auto
    then show ?thesis using assms(2) l by (simp add: u)
  qed
  have del: "repositories (cache (snd (Service_DeleteRepository s owner name))) k
        = (if k = fn then None else Some r)"
    using assms(2) by (simp add: Service_DeleteRepository_repositories fn_def)
  have st: "cache (snd (Service_GetStatus gh s ro so)) = cache s"
    by (rule Service_GetStatus_cache)
  have sync: "repositories (cache (snd res)) k = Some r
        \<or> (k = fn \<and> fst res = None
            \<and> repositories (cache (snd res)) k = Some (r\<lparr>repo_LastSyncedAt := now\<rparr>)
            \<and> (\<exists>prs. gh_ListPullRequests gh owner name sync_options = Inr prs)
            \<and> (\<exists>xs. gh_ListIssues gh owner name sync_options = Inr xs))"
    using syncRepository_repositories [OF assms(1), of gh now owner name]
    unfolding res_def [symmetric] fn_def [symmetric]
  proof (elim disjE exE conjE)
    assume "repositories (cache (snd res)) = repositories (cache s)"
    then show ?thesis using assms(2) by simp
  next
    fix r0 prs xs
    assume r0: "repositories (cache s) fn = Some r0" and ok: "fst res = None"
      and u: "repositories (cache (snd res)) = (repositories (cache s))(fn \<mapsto> r0\<lparr>repo_LastSyncedAt := now\<rparr>)"
      and prs: "gh_ListPullRequests gh owner name sync_options = Inr prs"
      and xs: "gh_ListIssues gh owner name sync_options = Inr xs"
    show ?thesis
    proof (cases "k = fn")
      case True
      then have "r0 = r" using r0 assms(2) by simp
      then show ?thesis using True ok prs xs by (simp add: u)
    next
      case False
      then show ?thesis using assms(2) by (simp add: u)
    qed
  qed
  show ?thesis
    using add del st sync unfolding s1_def fn_def res_def by (intro conjI) simp_all
qed

theorem C4_witness:
  "wf_cache (cache tracked)
   \<and> repositories (cache tracked) ''acme/widgets'' = Some widgets_record
   \<and> repositories (cache tracked) ''acme/gadgets'' = None
   \<and> repositories (cache (fst (snd (Service_AddRepository gh_up 50 tracked ''acme/gadgets''))))
        ''acme/widgets'' = Some widgets_record
   \<and> repositories (cache (fst (snd (Service_AddRepository gh_up 50 tracked ''acme/gadgets''))))
        ''acme/gadgets'' = Some (gadgets_record\<lparr>repo_LastSyncedAt := 50\<rparr>)
   \<and> repo_LastSyncedAt (gadgets_record\<lparr>repo_LastSyncedAt := 50\<rparr>) = 50
   \<and> repositories (cache (snd (syncRepository gh_up 50 tracked ''acme'' ''widgets'')))
        ''acme/widgets'' = Some (widgets_record\<lparr>repo_LastSyncedAt := 50\<rparr>)"
proof -
  have h1: "wf_cache (cache tracked)" by (rule wf_tracked)
  have h2: "repositories (cache tracked) ''acme/widgets'' = Some widgets_record"
    by (simp add: tracked_state)
  have h3: "repositories (cache tracked) ''acme/gadgets'' = None"
    by (simp add: tracked_state)
  have added: "repositories (cache (fst (snd (Service_AddRepository gh_up 50 tracked ''acme/gadgets''))))
        ''acme/gadgets'' = Some (gadgets_record\<lparr>repo_LastSyncedAt := 50\<rparr>)"
    by (simp add: tracked_state Service_AddRepository_def Cache_GetRepository_def Let_def
        gh_up_def acme_widgets_def Cache_AddRepository_def gadgets_record_def widgets_record_def)
  have synced: "repositories (cache (snd (syncRepository gh_up 50 tracked ''acme'' ''widgets'')))
        ''acme/widgets'' = Some (widgets_record\<lparr>repo_LastSyncedAt := 50\<rparr>)"
    by (simp add: tracked_state syncRepository_def syncRepository_body_def Let_def
        Cache_GetRepository_def syncPullRequests_def syncIssues_def gh_up_def
        Cache_UpdateRepository_def widgets_record_def)
  note inst = C4_last_synced_at_set_by_add_and_by_successful_cycle
    [OF h1 h2, of gh_up 50 "''acme/gadgets''" "''acme''" "''widgets''" "[]" "[]"]
  have kept: "repositories (cache (fst (snd (Service_AddRepository gh_up 50 tracked ''acme/gadgets''))))
        ''acme/widgets'' = Some widgets_record"
    using inst by (rule conjunct1)
  have "\<forall>k' r'. repositories (cache tracked) k' = None \<longrightarrow>
          repositories (cache (fst (snd (Service_AddRepository gh_up 50 tracked ''acme/gadgets'')))) k' = Some r'
          \<longrightarrow> repo_LastSyncedAt r' = 50"
    using inst by (elim conjE)
  from this [rule_format, OF h3 added]
  have stamp: "repo_LastSyncedAt (gadgets_record\<lparr>repo_LastSyncedAt := 50\<rparr>) = 50" .
  show ?thesis using h1 h2 h3 kept added stamp synced by (intro conjI)
qed

section \<open>Pagination of the filtered results (C5)\<close>

subsection \<open>What \<^verbatim>\<open>sort.Slice\<close> is assumed to do\<close>

lemma length_sort_Slice:
  assumes "is_sort_Slice sortSlice lessFn"
  shows "length (sortSlice lessFn xs) = length xs"
proof -
  have "mset (sortSlice lessFn xs) = mset xs"
    using assms by (simp add: is_sort_Slice_def)
  then show ?thesis by (rule mset_eq_length)
qed

lemma sort_Slice_singleton:
  assumes "is_sort_Slice sortSlice lessFn"
  shows "sortSlice lessFn [x] = [x]"
proof -
  have "mset (sortSlice lessFn [x]) = mset [x]"
    using assms by (simp add: is_sort_Slice_def)
  then show ?thesis by simp
qed

lemma mset_insert_by: "mset (insert_by lessFn x ys) = add_mset x (mset ys)"
  by (induction ys) simp_all

lemma mset_insertion_sort: "mset (insertion_sort lessFn xs) = mset xs"
  by (induction xs) (simp_all add: mset_insert_by)

lemma set_insert_by: "set (insert_by lessFn x ys) = insert x (set ys)"
  by (induction ys) auto

lemma sorted_insert_by:
  assumes asym: "\<And>a b. lessFn a b \<Longrightarrow> \<not> lessFn b a"
    and trans: "\<And>a b c. \<not> lessFn b a \<Longrightarrow> \<not> lessFn c b \<Longrightarrow> \<not> lessFn c a"
    and "sorted_wrt (\<lambda>a b. \<not> lessFn b a) ys"
  shows "sorted_wrt (\<lambda>a b. \<not> lessFn b a) (insert_by lessFn x ys)"
  using assms(3)
proof (induction ys)
  case Nil
  show ?case by simp
next
  case (Cons y ys)
  show ?case
  proof (cases "lessFn y x")
    case True
    have "\<not> lessFn x y" using asym [OF True] .
    then show ?thesis using True Cons by (simp add: set_insert_by)
  next
    case False
    have "\<forall>z\<in>set ys. \<not> lessFn z x"
    proof
      fix z
      assume "z \<in> set ys"
      then have "\<not> lessFn z y" using Cons.prems by simp
      then show "\<not> lessFn z x" using trans [OF False] by simp
    qed
    then show ?thesis using False Cons.prems by simp
  qed
qed

lemma insertion_sort_is_sort_Slice:
  assumes asym: "\<And>a b. lessFn a b \<Longrightarrow> \<not> lessFn b a"
    and trans: "\<And>a b c. \<not> lessFn b a \<Longrightarrow> \<not> lessFn c b \<Longrightarrow> \<not> lessFn c a"
  shows "is_sort_Slice insertion_sort lessFn"
proof -
  have "sorted_wrt (\<lambda>a b. \<not> lessFn b a) (insertion_sort lessFn xs)" for xs
    by (induction xs) (simp_all add: sorted_insert_by [OF asym trans])
  then show ?thesis by (simp add: is_sort_Slice_def mset_insertion_sort)
qed

lemma insertion_sort_pr_less: "is_sort_Slice insertion_sort (pr_less f)"
  by (rule insertion_sort_is_sort_Slice) (simp_all add: pr_less_def split: if_splits)

lemma insertion_sort_issue_less: "is_sort_Slice insertion_sort (issue_less g)"
  by (rule insertion_sort_is_sort_Slice) (simp_all add: issue_less_def split: if_splits)

subsection \<open>Pages whose offset fits the 64-bit arithmetic\<close>

lemma int_quo_ceiling:
  assumes "0 \<le> t" and "1 \<le> perPage" and "t + perPage < 2 ^ 63"
  shows "int_quo (int_sub (int_add t perPage) 1) perPage = Inr ((t + perPage - 1) div perPage)"
proof -
  have a: "int_add t perPage = t + perPage"
    unfolding int_add_def by (rule wrap64_id) (use assms in linarith)+
  have b: "int_sub (t + perPage) 1 = t + perPage - 1"
    unfolding int_sub_def by (rule wrap64_id) (use assms in linarith)+
  have nn: "0 \<le> t + perPage - 1" using assms by linarith
  have q0: "0 \<le> (t + perPage - 1) div perPage"
    using nn assms(2) by (simp add: pos_imp_zdiv_nonneg_iff)
  have q1: "(t + perPage - 1) div perPage \<le> t + perPage - 1"
    using zdiv_mono2 [of "t + perPage - 1" 1 perPage] nn assms(2) by simp
  have sg: "sgn (t + perPage - 1) * sgn perPage * (\<bar>t + perPage - 1\<bar> div \<bar>perPage\<bar>)
      = (t + perPage - 1) div perPage"
  proof (cases "t + perPage - 1 = 0")
    case True
    then show ?thesis by simp
  next
    case False
    then have "sgn (t + perPage - 1) = 1" using nn by (simp add: sgn_if)
    moreover have "sgn perPage = 1" using assms(2) by (simp add: sgn_if)
    ultimately show ?thesis using nn assms(2) by simp
  qed
  have w: "wrap64 ((t + perPage - 1) div perPage) = (t + perPage - 1) div perPage"
    by (rule wrap64_id) (use q0 q1 assms in linarith)+
  show ?thesis
    unfolding a b int_quo_def sg w using assms(2) by simp
qed

lemma paginate_filtered_as_apply_pagination:
  "paginate_filtered xs page perPage =
     (case int_quo (int_sub (int_add (int (length xs)) perPage) 1) perPage of
        Inl e \<Rightarrow> Inl e
      | Inr totalPages \<Rightarrow>
          (case apply_pagination xs (int (length xs)) page perPage of
             Inl e \<Rightarrow> Inl e
           | Inr ys \<Rightarrow> Inr (ys, \<lparr>pg_Page = page, pg_PerPage = perPage,
                                 pg_Total = int (length xs), pg_TotalPages = totalPages\<rparr>)))"
  by (simp add: paginate_filtered_def apply_pagination_def Let_def split: sum.splits)

lemma paginate_filtered_in_range:
  assumes "1 \<le> page" and "1 \<le> perPage" and "page * perPage < 2 ^ 63"
    and "int (length xs) + perPage < 2 ^ 63"
  shows "paginate_filtered xs page perPage =
     Inr (take (nat perPage) (drop (nat ((page - 1) * perPage)) xs),
          \<lparr>pg_Page = page, pg_PerPage = perPage, pg_Total = int (length xs),
           pg_TotalPages = (int (length xs) + perPage - 1) div perPage\<rparr>)"
  unfolding paginate_filtered_as_apply_pagination
  by (simp add: int_quo_ceiling [OF _ assms(2) assms(4)]
      apply_pagination_in_range [OF assms(1-3) refl])

lemma past_the_end_is_empty:
  assumes "int (length xs) \<le> (page - 1) * perPage"
  shows "take (nat perPage) (drop (nat ((page - 1) * perPage)) xs) = []"
  using assms by simp

lemma ListPullRequests_first_thousand:
  assumes "\<forall>m. pullRequests c r = Some m \<longrightarrow> range_order m ks"
  shows "(\<exists>e. Cache_ListPullRequests c r ks 1 1000 = Inl (Err e))
       \<or> (\<exists>prs t. Cache_ListPullRequests c r ks 1 1000 = Inr (prs, t) \<and> length prs \<le> 1000)"
proof (cases "repositories c r")
  case None
  then show ?thesis by (simp add: Cache_ListPullRequests_def)
next
  case (Some repo)
  show ?thesis
  proof (cases "pullRequests c r")
    case None
    then show ?thesis using Some by (simp add: Cache_ListPullRequests_def)
  next
    case S2: (Some m)
    have len: "int (length (range_values m ks)) = len_map m"
      using assms S2 by (simp add: length_range_values)
    have "apply_pagination (range_values m ks) (len_map m) 1 1000
        = Inr (take (nat 1000) (drop (nat ((1 - 1) * 1000)) (range_values m ks)))"
      by (rule apply_pagination_in_range [OF _ _ _ len]) simp_all
    then show ?thesis using Some S2 by (simp add: Cache_ListPullRequests_def Let_def)
  qed
qed

lemma collect_pull_requests_returns:
  assumes "\<forall>r m. pullRequests c r = Some m \<longrightarrow> range_order m (io r)"
  shows "\<exists>xs. collect_pull_requests c io repos = Inr xs \<and> length xs \<le> 1000 * length repos"
proof (induction repos)
  case Nil
  show ?case by simp
next
  case (Cons repo rest)
  then obtain ys where ys: "collect_pull_requests c io rest = Inr ys"
    and ly: "length ys \<le> 1000 * length rest" by auto
  from ListPullRequests_first_thousand [of c "repo_FullName repo" "io (repo_FullName repo)"] assms
  have "(\<exists>e. Cache_ListPullRequests c (repo_FullName repo) (io (repo_FullName repo)) 1 1000
            = Inl (Err e))
       \<or> (\<exists>prs t. Cache_ListPullRequests c (repo_FullName repo) (io (repo_FullName repo)) 1 1000
            = Inr (prs, t) \<and> length prs \<le> 1000)"
    by simp
  then show ?case
  proof (elim disjE exE conjE)
    fix e
    assume "Cache_ListPullRequests c (repo_FullName repo) (io (repo_FullName repo)) 1 1000
            = Inl (Err e)"
    then show ?thesis using ys ly by simp
  next
    fix prs t
    assume "Cache_ListPullRequests c (repo_FullName repo) (io (repo_FullName repo)) 1 1000
            = Inr (prs, t)" and "length prs \<le> 1000"
    then show ?thesis using ys ly by simp
  qed
qed

lemma ListRepositories_first_thousand:
  assumes "range_order (repositories c) ro"
  shows "\<exists>repos t. Cache_ListRepositories c ro 1 1000 = Inr (repos, t) \<and> length repos \<le> 1000"
  using ListRepositories_in_range [OF assms, of 1 1000] by simp

lemma filteredPRs_returns:
  assumes srt: "is_sort_Slice sortSlice (pr_less f)"
    and ord: "runtime_orders (cache s) (pullRequests (cache s)) ro io"
  shows "(prf_Repo f \<noteq> [] \<and> (filteredPRs equalFold sortSlice s f ro io = Inl ErrInvalidRepositoryName
            \<or> filteredPRs equalFold sortSlice s f ro io = Inl ErrRepositoryNotFound))
       \<or> (\<exists>xs. filteredPRs equalFold sortSlice s f ro io = Inr xs \<and> length xs \<le> 1000000)"
proof -
  have io: "\<forall>r m. pullRequests (cache s) r = Some m \<longrightarrow> range_order m (io r)"
    and ro: "range_order (repositories (cache s)) ro"
    using ord by (simp_all add: runtime_orders_def)
  have fin: "\<And>repos. length repos \<le> 1000 \<Longrightarrow>
      \<exists>xs. (case collect_pull_requests (cache s) io repos of
               Inl e \<Rightarrow> Inl e
             | Inr allPRs \<Rightarrow> Inr (sortSlice (pr_less f) (filter (pr_passes equalFold f) allPRs))) = Inr xs
           \<and> length xs \<le> 1000000"
  proof -
    fix repos :: "Repository list"
    assume b: "length repos \<le> 1000"
    obtain all where a: "collect_pull_requests (cache s) io repos = Inr all"
      and l: "length all \<le> 1000 * length repos"
      using collect_pull_requests_returns [OF io, of repos] by auto
    have "length (filter (pr_passes equalFold f) all) \<le> length all" by simp
    moreover have "1000 * length repos \<le> 1000 * 1000" using b by simp
    ultimately have "length (filter (pr_passes equalFold f) all) \<le> 1000000" using l by linarith
    then have "length (sortSlice (pr_less f) (filter (pr_passes equalFold f) all)) \<le> 1000000"
      by (simp add: length_sort_Slice [OF srt])
    then show "\<exists>xs. (case collect_pull_requests (cache s) io repos of
               Inl e \<Rightarrow> Inl e
             | Inr allPRs \<Rightarrow> Inr (sortSlice (pr_less f) (filter (pr_passes equalFold f) allPRs))) = Inr xs
           \<and> length xs \<le> 1000000"
      by (simp add: a)
  qed
  show ?thesis
  proof (cases "prf_Repo f = []")
    case True
    obtain repos t where r: "Cache_ListRepositories (cache s) ro 1 1000 = Inr (repos, t)"
      and lr: "length repos \<le> 1000"
      using ListRepositories_first_thousand [OF ro] by auto
    show ?thesis using fin [OF lr] True by (simp add: filteredPRs_def r)
  next
    case False
    have one: "\<And>repo. length [repo :: Repository] \<le> 1000" by simp
    show ?thesis
    proof (cases "\<exists>owner name. strings_Split (prf_Repo f) CHR ''/'' = [owner, name]")
      case F2: False
      then have "filteredPRs equalFold sortSlice s f ro io = Inl ErrInvalidRepositoryName"
        using False by (simp add: filteredPRs_def split: list.splits)
      then show ?thesis using False by simp
    next
      case True
      then obtain owner name where sp: "strings_Split (prf_Repo f) CHR ''/'' = [owner, name]"
        by auto
      show ?thesis
      proof (cases "Cache_GetRepository (cache s) owner name")
        case (Inl e)
        then have "filteredPRs equalFold sortSlice s f ro io = Inl ErrRepositoryNotFound"
          using False by (simp add: filteredPRs_def sp)
        then show ?thesis using False by simp
      next
        case (Inr repo)
        show ?thesis using fin [OF one, of repo] False by (simp add: filteredPRs_def sp Inr)
      qed
    qed
  qed
qed

lemma ListIssues_first_thousand:
  assumes "\<forall>m. issues c r = Some m \<longrightarrow> range_order m ks"
  shows "(\<exists>e. Cache_ListIssues c r ks 1 1000 = Inl (Err e))
       \<or> (\<exists>items t. Cache_ListIssues c r ks 1 1000 = Inr (items, t) \<and> length items \<le> 1000)"
proof (cases "repositories c r")
  case None
  then show ?thesis by (simp add: Cache_ListIssues_def)
next
  case (Some repo)
  show ?thesis
  proof (cases "issues c r")
    case None
    then show ?thesis using Some by (simp add: Cache_ListIssues_def)
  next
    case S2: (Some m)
    have len: "int (length (range_values m ks)) = len_map m"
      using assms S2 by (simp add: length_range_values)
    have "apply_pagination (range_values m ks) (len_map m) 1 1000
        = Inr (take (nat 1000) (drop (nat ((1 - 1) * 1000)) (range_values m ks)))"
      by (rule apply_pagination_in_range [OF _ _ _ len]) simp_all
    then show ?thesis using Some S2 by (simp add: Cache_ListIssues_def Let_def)
  qed
qed

lemma collect_issues_returns:
  assumes "\<forall>r m. issues c r = Some m \<longrightarrow> range_order m (io r)"
  shows "\<exists>xs. collect_issues c io repos = Inr xs \<and> length xs \<le> 1000 * length repos"
proof (induction repos)
  case Nil
  show ?case by simp
next
  case (Cons repo rest)
  then obtain ys where ys: "collect_issues c io rest = Inr ys"
    and ly: "length ys \<le> 1000 * length rest" by auto
  from ListIssues_first_thousand [of c "repo_FullName repo" "io (repo_FullName repo)"] assms
  have "(\<exists>e. Cache_ListIssues c (repo_FullName repo) (io (repo_FullName repo)) 1 1000
            = Inl (Err e))
       \<or> (\<exists>items t. Cache_ListIssues c (repo_FullName repo) (io (repo_FullName repo)) 1 1000
            = Inr (items, t) \<and> length items \<le> 1000)"
    by simp
  then show ?case
  proof (elim disjE exE conjE)
    fix e
    assume "Cache_ListIssues c (repo_FullName repo) (io (repo_FullName repo)) 1 1000
            = Inl (Err e)"
    then show ?thesis using ys ly by simp
  next
    fix items t
    assume "Cache_ListIssues c (repo_FullName repo) (io (repo_FullName repo)) 1 1000
            = Inr (items, t)" and "length items \<le> 1000"
    then show ?thesis using ys ly by simp
  qed
qed


lemma filteredIssues_returns:
  assumes srt: "is_sort_Slice sortSlice (issue_less f)"
    and ord: "runtime_orders (cache s) (issues (cache s)) ro io"
  shows "(isf_Repo f \<noteq> [] \<and> (filteredIssues equalFold sortSlice s f ro io = Inl ErrInvalidRepositoryName
            \<or> filteredIssues equalFold sortSlice s f ro io = Inl ErrRepositoryNotFound))
       \<or> (\<exists>xs. filteredIssues equalFold sortSlice s f ro io = Inr xs \<and> length xs \<le> 1000000)"
proof -
  have io: "\<forall>r m. issues (cache s) r = Some m \<longrightarrow> range_order m (io r)"
    and ro: "range_order (repositories (cache s)) ro"
    using ord by (simp_all add: runtime_orders_def)
  have fin: "\<And>repos. length repos \<le> 1000 \<Longrightarrow>
      \<exists>xs. (case collect_issues (cache s) io repos of
               Inl e \<Rightarrow> Inl e
             | Inr allIssues \<Rightarrow> Inr (sortSlice (issue_less f) (filter (issue_passes equalFold f) allIssues))) = Inr xs
           \<and> length xs \<le> 1000000"
  proof -
    fix repos :: "Repository list"
    assume b: "length repos \<le> 1000"
    obtain all where a: "collect_issues (cache s) io repos = Inr all"
      and l: "length all \<le> 1000 * length repos"
      using collect_issues_returns [OF io, of repos] by auto
    have "length (filter (issue_passes equalFold f) all) \<le> length all" by simp
    moreover have "1000 * length repos \<le> 1000 * 1000" using b by simp
    ultimately have "length (filter (issue_passes equalFold f) all) \<le> 1000000" using l by linarith
    then have "length (sortSlice (issue_less f) (filter (issue_passes equalFold f) all)) \<le> 1000000"
      by (simp add: length_sort_Slice [OF srt])
    then show "\<exists>xs. (case collect_issues (cache s) io repos of
               Inl e \<Rightarrow> Inl e
             | Inr allIssues \<Rightarrow> Inr (sortSlice (issue_less f) (filter (issue_passes equalFold f) allIssues))) = Inr xs
           \<and> length xs \<le> 1000000"
      by (simp add: a)
  qed
  show ?thesis
  proof (cases "isf_Repo f = []")
    case True
    obtain repos t where r: "Cache_ListRepositories (cache s) ro 1 1000 = Inr (repos, t)"
      and lr: "length repos \<le> 1000"
      using ListRepositories_first_thousand [OF ro] by auto
    show ?thesis using fin [OF lr] True by (simp add: filteredIssues_def r)
  next
    case False
    have one: "\<And>repo. length [repo :: Repository] \<le> 1000" by simp
    show ?thesis
    proof (cases "\<exists>owner name. strings_Split (isf_Repo f) CHR ''/'' = [owner, name]")
      case F2: False
      then have "filteredIssues equalFold sortSlice s f ro io = Inl ErrInvalidRepositoryName"
        using False by (simp add: filteredIssues_def split: list.splits)
      then show ?thesis using False by simp
    next
      case True
      then obtain owner name where sp: "strings_Split (isf_Repo f) CHR ''/'' = [owner, name]"
        by auto
      show ?thesis
      proof (cases "Cache_GetRepository (cache s) owner name")
        case (Inl e)
        then have "filteredIssues equalFold sortSlice s f ro io = Inl ErrRepositoryNotFound"
          using False by (simp add: filteredIssues_def sp)
        then show ?thesis using False by simp
      next
        case (Inr repo)
        show ?thesis using fin [OF one, of repo] False by (simp add: filteredIssues_def sp Inr)
      qed
    qed
  qed
qed

text \<open>
  What the listings do for a page and a page size from 1 on whose products and sums stay
  below \<open>2^63\<close>: with \<open>xs\<close> the slice \<^verbatim>\<open>filteredPRs\<close> (or \<^verbatim>\<open>filteredIssues\<close>) that the code
  has built when it reaches \<^verbatim>\<open>// Apply pagination\<close>, they return the page of at most
  \<open>perPage\<close> items of \<open>xs\<close> from offset \<open>(page - 1) * perPage\<close>, the total \<open>len xs\<close> and the
  number of pages \<open>(len xs + perPage - 1) div perPage\<close>, and an empty page with the same
  two numbers past the end of \<open>xs\<close>. The slice \<open>xs\<close> holds at most the first 1000 items of
  each of at most 1000 repositories (\<open>collect_pull_requests_returns\<close>,
  \<open>collect_issues_returns\<close>): the total counts this slice, not every item that passes
  the filters.
\<close>

lemma listAllPullRequests_in_range:
  assumes "1 \<le> page" and "1 \<le> perPage" and "page * perPage < 2 ^ 63"
    and "perPage + 1000000 < 2 ^ 63"
    and srt: "is_sort_Slice sortSlice (pr_less f)"
    and pg: "prf_Page f = page" "prf_PerPage f = perPage"
    and ord: "runtime_orders (cache s) (pullRequests (cache s)) ro io"
  shows "case filteredPRs equalFold sortSlice s f ro io of
           Inl e \<Rightarrow> prf_Repo f \<noteq> []
               \<and> (e = ErrInvalidRepositoryName \<or> e = ErrRepositoryNotFound)
               \<and> listAllPullRequests equalFold sortSlice s f ro io = Inl e
         | Inr xs \<Rightarrow>
             listAllPullRequests equalFold sortSlice s f ro io =
               Inr (take (nat perPage) (drop (nat ((page - 1) * perPage)) xs),
                    \<lparr>pg_Page = page, pg_PerPage = perPage, pg_Total = int (length xs),
                     pg_TotalPages = (int (length xs) + perPage - 1) div perPage\<rparr>)
             \<and> (int (length xs) \<le> (page - 1) * perPage \<longrightarrow>
                   take (nat perPage) (drop (nat ((page - 1) * perPage)) xs) = [])"
  using filteredPRs_returns [OF srt ord, of equalFold]
proof (elim disjE exE conjE)
  assume "prf_Repo f \<noteq> []"
    and "filteredPRs equalFold sortSlice s f ro io = Inl ErrInvalidRepositoryName"
  then show ?thesis by (simp add: listAllPullRequests_def)
next
  assume "prf_Repo f \<noteq> []"
    and "filteredPRs equalFold sortSlice s f ro io = Inl ErrRepositoryNotFound"
  then show ?thesis by (simp add: listAllPullRequests_def)
next
  fix xs
  assume xs: "filteredPRs equalFold sortSlice s f ro io = Inr xs" and l: "length xs \<le> 1000000"
  have b: "int (length xs) + perPage < 2 ^ 63" using l assms(4) by linarith
  show ?thesis
    using paginate_filtered_in_range [OF assms(1-3) b] pg
    by (simp add: xs listAllPullRequests_def)
qed

lemma listAllIssues_in_range:
  assumes "1 \<le> page" and "1 \<le> perPage" and "page * perPage < 2 ^ 63"
    and "perPage + 1000000 < 2 ^ 63"
    and srt: "is_sort_Slice sortSlice (issue_less f)"
    and pg: "isf_Page f = page" "isf_PerPage f = perPage"
    and ord: "runtime_orders (cache s) (issues (cache s)) ro io"
  shows "case filteredIssues equalFold sortSlice s f ro io of
           Inl e \<Rightarrow> isf_Repo f \<noteq> []
               \<and> (e = ErrInvalidRepositoryName \<or> e = ErrRepositoryNotFound)
               \<and> listAllIssues equalFold sortSlice s f ro io = Inl e
         | Inr xs \<Rightarrow>
             listAllIssues equalFold sortSlice s f ro io =
               Inr (take (nat perPage) (drop (nat ((page - 1) * perPage)) xs),
                    \<lparr>pg_Page = page, pg_PerPage = perPage, pg_Total = int (length xs),
                     pg_TotalPages = (int (length xs) + perPage - 1) div perPage\<rparr>)
             \<and> (int (length xs) \<le> (page - 1) * perPage \<longrightarrow>
                   take (nat perPage) (drop (nat ((page - 1) * perPage)) xs) = [])"
  using filteredIssues_returns [OF srt ord, of equalFold]
proof (elim disjE exE conjE)
  assume "isf_Repo f \<noteq> []"
    and "filteredIssues equalFold sortSlice s f ro io = Inl ErrInvalidRepositoryName"
  then show ?thesis by (simp add: listAllIssues_def)
next
  assume "isf_Repo f \<noteq> []"
    and "filteredIssues equalFold sortSlice s f ro io = Inl ErrRepositoryNotFound"
  then show ?thesis by (simp add: listAllIssues_def)
next
  fix xs
  assume xs: "filteredIssues equalFold sortSlice s f ro io = Inr xs" and l: "length xs \<le> 1000000"
  have b: "int (length xs) + perPage < 2 ^ 63" using l assms(4) by linarith
  show ?thesis
    using paginate_filtered_in_range [OF assms(1-3) b] pg
    by (simp add: xs listAllIssues_def)
qed

subsection \<open>The result set of the worked example\<close>

lemma stocked_orders:
  "runtime_orders (cache stocked_service) (pullRequests (cache stocked_service))
     [''acme/widgets''] (\<lambda>r. [5])"
  "runtime_orders (cache stocked_service) (issues (cache stocked_service))
     [''acme/widgets''] (\<lambda>r. [3])"
  by (auto simp add: runtime_orders_def range_order_def stocked_service_def stocked_state
      split: if_splits)

text \<open>
  Without a scope and without filters, the service \<open>stocked_service\<close> collects its one pull
  request and its one issue, whatever \<^verbatim>\<open>strings.EqualFold\<close> and \<^verbatim>\<open>sort.Slice\<close> do: the filters
  are empty, and the slice that is sorted has one element. Applied to a sorting function as
  documented, the result set of either query has one element, so every page from 2 on is
  past its end.
\<close>

lemma stocked_collected:
  "filteredPRs equalFold sortPRs stocked_service (all_pull_requests page perPage)
       [''acme/widgets''] (\<lambda>r. [5])
     = Inr (sortPRs (pr_less (all_pull_requests page perPage)) [pr5])"
  "filteredIssues equalFold sortIssues stocked_service (all_issues page perPage)
       [''acme/widgets''] (\<lambda>r. [3])
     = Inr (sortIssues (issue_less (all_issues page perPage)) [issue3])"
proof -
  have f: "prf_State (all_pull_requests page perPage) = []"
    "prf_Author (all_pull_requests page perPage) = []"
    "prf_Repo (all_pull_requests page perPage) = []"
    by (simp_all add: all_pull_requests_def)
  have g: "isf_State (all_issues page perPage) = []"
    "isf_Author (all_issues page perPage) = []"
    "isf_Repo (all_issues page perPage) = []"
    by (simp_all add: all_issues_def)
  show "filteredPRs equalFold sortPRs stocked_service (all_pull_requests page perPage)
       [''acme/widgets''] (\<lambda>r. [5])
     = Inr (sortPRs (pr_less (all_pull_requests page perPage)) [pr5])"
    unfolding filteredPRs_def pr_passes_def f
    by (simp add: stocked_service_def stocked_state listing_defs Cache_ListPullRequests_def
        widgets_record_def)
  show "filteredIssues equalFold sortIssues stocked_service (all_issues page perPage)
       [''acme/widgets''] (\<lambda>r. [3])
     = Inr (sortIssues (issue_less (all_issues page perPage)) [issue3])"
    unfolding filteredIssues_def issue_passes_def g
    by (simp add: stocked_service_def stocked_state listing_defs Cache_ListIssues_def
        widgets_record_def)
qed

lemma stocked_filtered:
  assumes "is_sort_Slice sortPRs (pr_less (all_pull_requests page perPage))"
    and "is_sort_Slice sortIssues (issue_less (all_issues page perPage))"
  shows "filteredPRs equalFold sortPRs stocked_service (all_pull_requests page perPage)
       [''acme/widgets''] (\<lambda>r. [5]) = Inr [pr5]"
    and "filteredIssues equalFold sortIssues stocked_service (all_issues page perPage)
       [''acme/widgets''] (\<lambda>r. [3]) = Inr [issue3]"
  by (simp_all only: stocked_collected sort_Slice_singleton [OF assms(1)]
      sort_Slice_singleton [OF assms(2)])

text \<open>Page 2 of size 100 is past the end, and is answered as the code intends.\<close>

lemma stocked_page_two:
  assumes "is_sort_Slice sortPRs (pr_less (all_pull_requests 2 100))"
    and "is_sort_Slice sortIssues (issue_less (all_issues 2 100))"
  shows "listAllPullRequests equalFold sortPRs stocked_service (all_pull_requests 2 100)
       [''acme/widgets''] (\<lambda>r. [5])
     = Inr ([], \<lparr>pg_Page = 2, pg_PerPage = 100, pg_Total = 1, pg_TotalPages = 1\<rparr>)"
    and "listAllIssues equalFold sortIssues stocked_service (all_issues 2 100)
       [''acme/widgets''] (\<lambda>r. [3])
     = Inr ([], \<lparr>pg_Page = 2, pg_PerPage = 100, pg_Total = 1, pg_TotalPages = 1\<rparr>)"
proof -
  have p: "paginate_filtered [x] 2 100
      = Inr ([], \<lparr>pg_Page = 2, pg_PerPage = 100, pg_Total = 1, pg_TotalPages = 1\<rparr>)" for x :: 'a
    using paginate_filtered_in_range [of 2 100 "[x]"] by simp
  have pp: "prf_Page (all_pull_requests 2 100) = 2" "prf_PerPage (all_pull_requests 2 100) = 100"
    "isf_Page (all_issues 2 100) = 2" "isf_PerPage (all_issues 2 100) = 100"
    by (simp_all add: all_pull_requests_def all_issues_def)
  show "listAllPullRequests equalFold sortPRs stocked_service (all_pull_requests 2 100)
       [''acme/widgets''] (\<lambda>r. [5])
     = Inr ([], \<lparr>pg_Page = 2, pg_PerPage = 100, pg_Total = 1, pg_TotalPages = 1\<rparr>)"
    unfolding listAllPullRequests_def stocked_filtered(1) [OF assms] pp by (simp add: p)
  show "listAllIssues equalFold sortIssues stocked_service (all_issues 2 100)
       [''acme/widgets''] (\<lambda>r. [3])
     = Inr ([], \<lparr>pg_Page = 2, pg_PerPage = 100, pg_Total = 1, pg_TotalPages = 1\<rparr>)"
    unfolding listAllIssues_def stocked_filtered(2) [OF assms] pp by (simp add: p)
qed

subsection \<open>A page whose offset overflows\<close>

text \<open>
  The handler of the HTTP interface accepts every page above 0 and every page size from 1
  to 100. For page 92233720368547760 and page size 100 the offset
  \<^verbatim>\<open>(filter.Page - 1) * filter.PerPage\<close> is \<open>9223372036854775900\<close>, above \<open>2^63 - 1\<close>; as a
  Go \<^verbatim>\<open>int\<close> it is \<open>-9223372036854775716\<close>. The test \<^verbatim>\<open>start >= total\<close> for a page past the
  end does not fire, and the slice expression panics, whatever the slice holds.
\<close>

lemma overflowing_offset:
  "int_mul (int_sub 92233720368547760 1) 100 = - 9223372036854775716"
  by (simp add: int_mul_def int_sub_def wrap64_def)

lemma paginate_filtered_overflows:
  "paginate_filtered xs 92233720368547760 100
     = Inl (Panic ''runtime error: slice bounds out of range'')"
  unfolding paginate_filtered_def overflowing_offset Let_def
  by (simp add: int_quo_def go_slice_def int_add_def wrap64_def)

lemma listAllPullRequests_overflows:
  assumes "prf_Page f = 92233720368547760" and "prf_PerPage f = 100"
  shows "listAllPullRequests equalFold sortSlice s f ro io =
     (case filteredPRs equalFold sortSlice s f ro io of
        Inl e \<Rightarrow> Inl e
      | Inr xs \<Rightarrow> Inl (Panic ''runtime error: slice bounds out of range''))"
  unfolding listAllPullRequests_def assms paginate_filtered_overflows ..

lemma listAllIssues_overflows:
  assumes "isf_Page f = 92233720368547760" and "isf_PerPage f = 100"
  shows "listAllIssues equalFold sortSlice s f ro io =
     (case filteredIssues equalFold sortSlice s f ro io of
        Inl e \<Rightarrow> Inl e
      | Inr xs \<Rightarrow> Inl (Panic ''runtime error: slice bounds out of range''))"
  unfolding listAllIssues_def assms paginate_filtered_overflows ..

text \<open>A page size of 0, which the callers of the service replace by a default, divides by
  zero in the number of pages.\<close>

lemma paginate_filtered_per_page_zero:
  "paginate_filtered xs page 0 = Inl (Panic ''runtime error: integer divide by zero'')"
  by (simp add: paginate_filtered_def int_quo_def int_mul_def int_add_def wrap64_def
      go_slice_def Let_def)

text \<open>
  Claim C5 says that every list query returns the total and the number of pages of the
  filtered result set, and that a page past the end of that set is answered with an empty
  page, these two numbers and no error. On the service \<open>stocked_service\<close>, which holds one
  pull request and one issue, the queries without scope and filters for page
  92233720368547760 of size 100, a page past the end, return no page and no numbers: both
  listings panic in the slice expression. This holds whatever \<^verbatim>\<open>strings.EqualFold\<close> and
  \<^verbatim>\<open>sort.Slice\<close> return.
\<close>

theorem C5_page_past_the_end_panics_on_overflow:
  "listAllPullRequests equalFold sortPRs stocked_service
       (all_pull_requests 92233720368547760 100) [''acme/widgets''] (\<lambda>r. [5])
     = Inl (Panic ''runtime error: slice bounds out of range'')
   \<and> listAllIssues equalFold sortIssues stocked_service
       (all_issues 92233720368547760 100) [''acme/widgets''] (\<lambda>r. [3])
     = Inl (Panic ''runtime error: slice bounds out of range'')"
proof -
  have p: "prf_Page (all_pull_requests 92233720368547760 100) = 92233720368547760"
    "prf_PerPage (all_pull_requests 92233720368547760 100) = 100"
    by (simp_all add: all_pull_requests_def)
  have i: "isf_Page (all_issues 92233720368547760 100) = 92233720368547760"
    "isf_PerPage (all_issues 92233720368547760 100) = 100"
    by (simp_all add: all_issues_def)
  show ?thesis
    unfolding listAllPullRequests_overflows [OF p] listAllIssues_overflows [OF i]
      stocked_collected
    by simp
qed

end
